theory Spec2Isabelle
  imports Complex_Main
begin

section \<open>Python values and exceptions\<close>

text \<open>
  The values that \<^verbatim>\<open>request.get_json()\<close> and \<^verbatim>\<open>json.loads\<close> hand to the
  handler: Python objects decoded from JSON. A dict is kept as an association list
  (a Python dict has each key once; \<open>map_of\<close> reads the first entry of a key).
  The type \<open>'f\<close> stands for Python's floats; the repository code never computes
  with them itself (the only arithmetic is inside torch), so they stay abstract.
\<close>

datatype 'f pyval =
    PNone
  | PBool bool
  | PInt int
  | PFloat 'f
  | PStr string
  | PList "'f pyval list"
  | PDict "(string \<times> 'f pyval) list"

text \<open>
  Exceptions are values. Only subclasses of Python's \<^verbatim>\<open>Exception\<close> occur: these are
  what \<^verbatim>\<open>except Exception\<close> catches. \<open>OtherError\<close> is any such exception raised by
  Flask, json, the tokenizer or torch, with its message.
\<close>

datatype exn =
    AttributeError string
  | TypeError string
  | IndexError string
  | OtherError string

fun str :: "exn \<Rightarrow> string" where
  "str (AttributeError m) = m"
| "str (TypeError m) = m"
| "str (IndexError m) = m"
| "str (OtherError m) = m"

fun type_name :: "'f pyval \<Rightarrow> string" where
  "type_name PNone = ''NoneType''"
| "type_name (PBool _) = ''bool''"
| "type_name (PInt _) = ''int''"
| "type_name (PFloat _) = ''float''"
| "type_name (PStr _) = ''str''"
| "type_name (PList _) = ''list''"
| "type_name (PDict _) = ''dict''"

text \<open>\<^verbatim>\<open>data.get(key)\<close>: only a dict has the method; a missing key gives \<^verbatim>\<open>None\<close>.\<close>

fun py_get :: "'f pyval \<Rightarrow> string \<Rightarrow> exn + 'f pyval" where
  "py_get (PDict kv) k = Inr (case map_of kv k of None \<Rightarrow> PNone | Some v \<Rightarrow> v)"
| "py_get v k =
     Inl (AttributeError (CHR 0x27 # type_name v @ ''' object has no attribute 'get'' @ [CHR 0x27]))"

text \<open>\<^verbatim>\<open>text[:50]\<close>: strings and lists can be sliced, a dict cannot hash the slice
  (from Python 3.12 on it has no such key: an exception either way), everything else is
  not subscriptable.\<close>

fun py_slice50 :: "'f pyval \<Rightarrow> exn + 'f pyval" where
  "py_slice50 (PStr s) = Inr (PStr (take 50 s))"
| "py_slice50 (PList xs) = Inr (PList (take 50 xs))"
| "py_slice50 (PDict kv) = Inl (TypeError (''unhashable type: 'slice'' @ [CHR 0x27]))"
| "py_slice50 v = Inl (TypeError (CHR 0x27 # type_name v @ ''' object is not subscriptable''))"

text \<open>\<^verbatim>\<open>len(text)\<close>.\<close>

fun py_len :: "'f pyval \<Rightarrow> exn + nat" where
  "py_len (PStr s) = Inr (length s)"
| "py_len (PList xs) = Inr (length xs)"
| "py_len (PDict kv) = Inr (length kv)"
| "py_len v = Inl (TypeError (''object of type '' @ CHR 0x27 # type_name v @ ''' has no len()''))"

text \<open>Python truthiness, as \<^verbatim>\<open>not text\<close> tests it.\<close>

fun truthy :: "('f::zero) pyval \<Rightarrow> bool" where
  "truthy PNone = False"
| "truthy (PBool b) = b"
| "truthy (PInt i) = (i \<noteq> 0)"
| "truthy (PFloat x) = (x \<noteq> 0)"
| "truthy (PStr s) = (s \<noteq> [])"
| "truthy (PList xs) = (xs \<noteq> [])"
| "truthy (PDict kv) = (kv \<noteq> [])"

section \<open>The engine: app/api/model.py\<close>

text \<open>
  The keyword arguments of the tokenizer call and the tensors it returns
  (\<^verbatim>\<open>input_ids\<close> and \<^verbatim>\<open>attention_mask\<close>, one row per batch element).
\<close>

record tok_opts =
  return_tensors :: string
  padding :: bool
  truncation :: bool
  max_length :: nat

record inputs =
  input_ids :: "nat list list"
  attention_mask :: "nat list list"

text \<open>
  \<^verbatim>\<open>TransformerModel\<close> holds the pretrained tokenizer and classifier. Both are
  HuggingFace objects loaded by \<^verbatim>\<open>from_pretrained\<close>; what they compute is not
  repository code, so they are fields of function type: the tokenizer maps a text and
  its keyword arguments to tensors or raises, the classifier maps the tensors to the
  logits (one row per batch element) or raises. \<open>F_softmax\<close> is
  \<^verbatim>\<open>torch.nn.functional.softmax\<close> along the last dimension.
\<close>

record 'f TransformerModel =
  self_tokenizer :: "'f pyval \<Rightarrow> tok_opts \<Rightarrow> exn + inputs"
  self_model :: "inputs \<Rightarrow> exn + 'f list list"
  F_softmax :: "'f list \<Rightarrow> 'f list"

text \<open>Line 39: the tokenizer call of \<^verbatim>\<open>predict\<close>.\<close>

definition tokenize :: "'f TransformerModel \<Rightarrow> 'f pyval \<Rightarrow> exn + inputs" where
  "tokenize self text =
     self_tokenizer self text
       \<lparr>return_tensors = ''pt'', padding = True, truncation = True, max_length = 512\<rparr>"

text \<open>
  \<^verbatim>\<open>predict\<close>: tokenize, run the classifier, softmax every row, take row 0
  (\<^verbatim>\<open>[0]\<close>) and its entries 0 and 1. An index out of range raises IndexError.
\<close>

definition predict :: "'f TransformerModel \<Rightarrow> 'f pyval \<Rightarrow> exn + 'f pyval" where
  "predict self text =
     (case tokenize self text of
        Inl e \<Rightarrow> Inl e
      | Inr inps \<Rightarrow>
          (case self_model self inps of
             Inl e \<Rightarrow> Inl e
           | Inr logits \<Rightarrow>
               (case map (F_softmax self) logits of
                  [] \<Rightarrow> Inl (IndexError ''index 0 is out of bounds for axis 0 with size 0'')
                | scores # _ \<Rightarrow>
                    (case scores of
                       [] \<Rightarrow> Inl (IndexError ''index 0 is out of bounds for axis 0 with size 0'')
                     | [_] \<Rightarrow> Inl (IndexError ''index 1 is out of bounds for axis 0 with size 1'')
                     | s0 # s1 # _ \<Rightarrow>
                         Inr (PDict [(''negative'', PFloat s0), (''positive'', PFloat s1)])))))"

section \<open>Library behaviour described by the spec\<close>

text \<open>
  Modelled from the spec: \<^verbatim>\<open>torch.nn.functional.softmax\<close> is library code. The spec
  calls it the ``conversion of raw scores into a probability distribution summing to 1''
  applied to the score vector, which is the softmax function. It is taken over the real
  numbers: the rounding of floating point, its infinities and NaN are left out.
\<close>

definition softmax :: "real list \<Rightarrow> real list" where
  "softmax xs = map (\<lambda>x. exp x / sum_list (map exp xs)) xs"


section \<open>The serving facade: app/main.py\<close>

text \<open>
  The process state is the global \<^verbatim>\<open>model\<close>. Whether \<^verbatim>\<open>TransformerModel()\<close>
  succeeds depends on the HuggingFace hub and the file system, not on the program, so
  the outcome of the \<open>n\<close>-th construction is a parameter \<open>ctor n\<close> of every
  function that may construct, and the state counts the constructions made so far.
\<close>

record 'f state =
  model :: "'f TransformerModel option"
  constructions :: nat

type_synonym 'f ctor = "nat \<Rightarrow> exn + 'f TransformerModel"

text \<open>
  What the handlers read of Flask's \<^verbatim>\<open>request\<close>: the two content-type attributes,
  what \<^verbatim>\<open>request.get_json()\<close> returns or raises, and what
  \<^verbatim>\<open>json.loads(request.data.decode('utf-8'))\<close> returns or raises.
\<close>

record 'f request =
  is_json :: bool
  content_type :: "string option"
  get_json :: "exn + 'f pyval"
  data_json_loads :: "exn + 'f pyval"

text \<open>A response is a body and a status; \<^verbatim>\<open>jsonify\<close> of a dict is a JSON object.\<close>

datatype 'f body = EmptyBody | Jsonify "(string \<times> 'f pyval) list"

type_synonym 'f response = "'f body \<times> nat"

text \<open>Lines 24-40.\<close>

definition load_model :: "'f ctor \<Rightarrow> 'f state \<Rightarrow> (exn + 'f TransformerModel) \<times> 'f state" where
  "load_model ctor s =
     (case model s of
        Some m \<Rightarrow> (Inr m, s)
      | None \<Rightarrow>
          (case ctor (constructions s) of
             Inr m \<Rightarrow> (Inr m, s\<lparr>model := Some m, constructions := Suc (constructions s)\<rparr>)
           | Inl e \<Rightarrow> (Inl e, s\<lparr>constructions := Suc (constructions s)\<rparr>)))"

text \<open>Lines 22 and 42-46: the module is imported; a failed load is logged and dropped.\<close>

definition startup :: "'f ctor \<Rightarrow> 'f state" where
  "startup ctor =
     (case load_model ctor \<lparr>model = None, constructions = 0\<rparr> of
        (Inr m, s) \<Rightarrow> s\<lparr>model := Some m\<rparr>
      | (Inl e, s) \<Rightarrow> s)"

text \<open>Lines 59-66.\<close>

definition health_check :: "'f state \<Rightarrow> 'f response \<times> 'f state" where
  "health_check s = ((EmptyBody, 200), s)"

text \<open>Lines 87-90: the branch that parses the body.\<close>

definition parse_body :: "'f request \<Rightarrow> exn + 'f pyval" where
  "parse_body req = (if is_json req then get_json req else data_json_loads req)"

text \<open>
  Lines 86-103, the body of the \<^verbatim>\<open>try\<close>: \<open>Inl\<close> is an exception that reaches
  the \<^verbatim>\<open>except\<close> clause. The log line evaluates \<^verbatim>\<open>text[:50]\<close> and
  \<^verbatim>\<open>len(text)\<close> before \<^verbatim>\<open>not text\<close> is tested.
\<close>

definition try_block :: "('f::zero) TransformerModel \<Rightarrow> 'f request \<Rightarrow> exn + 'f response" where
  "try_block m req =
     (case parse_body req of
        Inl e \<Rightarrow> Inl e
      | Inr data \<Rightarrow>
          (case py_get data ''text'' of
             Inl e \<Rightarrow> Inl e
           | Inr text \<Rightarrow>
               (case py_slice50 text of
                  Inl e \<Rightarrow> Inl e
                | Inr _ \<Rightarrow>
                    (case py_len text of
                       Inl e \<Rightarrow> Inl e
                     | Inr _ \<Rightarrow>
                         if \<not> truthy text
                         then Inr (Jsonify [(''error'', PStr ''Missing 'text' field in request'')], 400)
                         else (case predict m text of
                                 Inl e \<Rightarrow> Inl e
                               | Inr result \<Rightarrow> Inr (Jsonify [(''result'', result)], 200))))))"

text \<open>
  Lines 80-108: what the handler does once the engine \<open>m\<close> is there. The
  content-type test is outside the \<^verbatim>\<open>try\<close>; an exception of the
  \<^verbatim>\<open>try\<close> body becomes the 500 response of the \<^verbatim>\<open>except\<close> clause.
\<close>

definition validate_and_predict :: "('f::zero) TransformerModel \<Rightarrow> 'f request \<Rightarrow> 'f response" where
  "validate_and_predict m req =
     (if \<not> is_json req \<and> content_type req \<noteq> Some ''application/json''
      then (Jsonify [(''error'', PStr ''Request must be JSON'')], 400)
      else (case try_block m req of
              Inl e \<Rightarrow> (Jsonify [(''error'', PStr (''Error during prediction: '' @ str e))], 500)
            | Inr resp \<Rightarrow> resp))"

text \<open>
  Lines 68-108. The handler first makes sure the model is loaded (lines 70-78) and
  answers 500 when the load fails; only then does it look at the request.
\<close>

definition process_inference_request ::
  "('f::zero) ctor \<Rightarrow> 'f state \<Rightarrow> 'f request \<Rightarrow> 'f response \<times> 'f state" where
  "process_inference_request ctor s req =
     (case (case model s of
              None \<Rightarrow>
                (case load_model ctor s of
                   (Inr m, s') \<Rightarrow> (Inr m, s'\<lparr>model := Some m\<rparr>)
                 | (Inl e, s') \<Rightarrow> (Inl e, s'))
            | Some m \<Rightarrow> (Inr m, s)) of
        (Inl e, s') \<Rightarrow>
          ((Jsonify [(''error'', PStr (''Failed to load model: '' @ str e))], 500), s')
      | (Inr m, s') \<Rightarrow> (validate_and_predict m req, s'))"

text \<open>Lines 49-56: the route \<^verbatim>\<open>/invocations\<close>; its function is also called
  \<^verbatim>\<open>predict\<close> in the source.\<close>

definition predict_route ::
  "('f::zero) ctor \<Rightarrow> 'f state \<Rightarrow> 'f request \<Rightarrow> 'f response \<times> 'f state" where
  "predict_route ctor s req = process_inference_request ctor s req"

text \<open>
  The process serves one call after another: the two routes, and a direct call of
  \<^verbatim>\<open>load_model\<close>. \<open>serve\<close> is the state a call leaves behind.
\<close>

datatype 'f call = Invocations "'f request" | Ping | LoadModel

fun serve :: "('f::zero) ctor \<Rightarrow> 'f state \<Rightarrow> 'f call \<Rightarrow> 'f state" where
  "serve ctor s (Invocations req) = snd (predict_route ctor s req)"
| "serve ctor s Ping = snd (health_check s)"
| "serve ctor s LoadModel = snd (load_model ctor s)"

section \<open>Concurrent callers of the loader\<close>

text \<open>
  \<^verbatim>\<open>load_model\<close> takes no lock, so a thread that runs it can be suspended between
  its statements while another thread runs. A caller is at one of four places: before
  the test of line 28; before the constructor call of line 34 (its test found
  \<^verbatim>\<open>None\<close>); before the store into the global of line 34 (its constructor call
  has returned the engine it holds); or before a \<^verbatim>\<open>return model\<close> (line 29 after
  a test that found the global set, line 36 after the store), which reads the global
  again. It ends by returning what the global held then, or by raising.
\<close>

datatype 'f caller =
    At_test
  | At_construct
  | At_store "'f TransformerModel"
  | At_return
  | Returned "'f TransformerModel option"
  | Raised exn

record 'f threads =
  shared :: "'f state"
  callers :: "'f caller list"

text \<open>Caller \<open>i\<close> runs up to its next place.\<close>

definition caller_step :: "'f ctor \<Rightarrow> 'f threads \<Rightarrow> nat \<Rightarrow> 'f threads" where
  "caller_step ctor c i =
     (if length (callers c) \<le> i then c
      else
        (case callers c ! i of
           At_test \<Rightarrow>
             (case model (shared c) of
                Some m \<Rightarrow> c\<lparr>callers := (callers c)[i := At_return]\<rparr>
              | None \<Rightarrow> c\<lparr>callers := (callers c)[i := At_construct]\<rparr>)
         | At_construct \<Rightarrow>
             (case ctor (constructions (shared c)) of
                Inr m \<Rightarrow>
                  \<lparr>shared = (shared c)\<lparr>constructions := Suc (constructions (shared c))\<rparr>,
                   callers = (callers c)[i := At_store m]\<rparr>
              | Inl e \<Rightarrow>
                  \<lparr>shared = (shared c)\<lparr>constructions := Suc (constructions (shared c))\<rparr>,
                   callers = (callers c)[i := Raised e]\<rparr>)
         | At_store m \<Rightarrow>
             \<lparr>shared = (shared c)\<lparr>model := Some m\<rparr>, callers = (callers c)[i := At_return]\<rparr>
         | At_return \<Rightarrow> c\<lparr>callers := (callers c)[i := Returned (model (shared c))]\<rparr>
         | Returned r \<Rightarrow> c
         | Raised e \<Rightarrow> c))"

text \<open>A schedule names the caller that takes each step.\<close>

definition interleave :: "'f ctor \<Rightarrow> 'f threads \<Rightarrow> nat list \<Rightarrow> 'f threads" where
  "interleave ctor c schedule = foldl (caller_step ctor) c schedule"

text \<open>A cold start: the global is unset and \<open>n\<close> callers are about to test it.\<close>

definition cold_start :: "nat \<Rightarrow> 'f threads" where
  "cold_start n = \<lparr>shared = \<lparr>model = None, constructions = 0\<rparr>, callers = replicate n At_test\<rparr>"

text \<open>A caller is past its construction once it is beyond the constructor call of
  line 34, or beyond line 29.\<close>

fun past_construct :: "'f caller \<Rightarrow> bool" where
  "past_construct At_test = False"
| "past_construct At_construct = False"
| "past_construct (At_store m) = True"
| "past_construct At_return = True"
| "past_construct (Returned r) = True"
| "past_construct (Raised e) = True"

text \<open>A caller that has not finished can still take a step.\<close>

fun finished :: "'f caller \<Rightarrow> bool" where
  "finished (Returned r) = True"
| "finished (Raised e) = True"
| "finished p = False"

text \<open>An engine is complete when it is the result of a constructor call that has returned.\<close>

definition constructed :: "'f ctor \<Rightarrow> 'f threads \<Rightarrow> 'f TransformerModel \<Rightarrow> bool" where
  "constructed ctor c m \<longleftrightarrow> (\<exists>k<constructions (shared c). ctor k = Inr m)"

text \<open>
  The invariant of every interleaving: the global, every engine a caller is about to
  store and every value a caller has returned is a complete engine; and a caller that is
  about to return finds the global set.
\<close>

definition sound :: "'f ctor \<Rightarrow> 'f threads \<Rightarrow> bool" where
  "sound ctor c \<longleftrightarrow>
     (\<forall>m. model (shared c) = Some m \<longrightarrow> constructed ctor c m) \<and>
     (\<forall>p \<in> set (callers c).
        (\<forall>m. p = At_store m \<longrightarrow> constructed ctor c m) \<and>
        (p = At_return \<longrightarrow> model (shared c) \<noteq> None) \<and>
        (\<forall>r. p = Returned r \<longrightarrow> (\<exists>m. r = Some m \<and> constructed ctor c m)))"

section \<open>Example inputs\<close>

text \<open>A stand-in engine that accepts every text and scores it one half each way.\<close>

definition stub_engine :: "real TransformerModel" where
  "stub_engine =
     \<lparr>self_tokenizer = (\<lambda>text opts. Inr \<lparr>input_ids = [[101, 102]], attention_mask = [[1, 1]]\<rparr>),
      self_model = (\<lambda>inps. Inr [[0, 0]]),
      F_softmax = map (\<lambda>x. 1 / 2)\<rparr>"

text \<open>An engine whose forward pass raises.\<close>

definition broken_engine :: "real TransformerModel" where
  "broken_engine = stub_engine\<lparr>self_model := (\<lambda>inps. Inl (OtherError ''forward pass failed''))\<rparr>"

definition ctor_ok :: "real ctor" where
  "ctor_ok n = Inr stub_engine"

definition ctor_fail :: "real ctor" where
  "ctor_fail n = Inl (OtherError ''hub unreachable'')"

text \<open>The first construction fails, every later one succeeds.\<close>

definition ctor_retry :: "real ctor" where
  "ctor_retry n = (if n = 0 then Inl (OtherError ''hub unreachable'') else Inr stub_engine)"

definition s_unloaded :: "real state" where
  "s_unloaded = \<lparr>model = None, constructions = 0\<rparr>"

definition s_loaded :: "real state" where
  "s_loaded = \<lparr>model = Some stub_engine, constructions = 1\<rparr>"

text \<open>\<^verbatim>\<open>Content-Type: text/plain\<close> with a JSON-looking body.\<close>

definition req_plain :: "real request" where
  "req_plain =
     \<lparr>is_json = False, content_type = Some ''text/plain'',
      get_json = Inl (OtherError ''415 Unsupported Media Type''),
      data_json_loads = Inr (PDict [(''text'', PStr ''hello'')])\<rparr>"

definition json_request :: "exn + real pyval \<Rightarrow> real request" where
  "json_request parsed =
     \<lparr>is_json = True, content_type = Some ''application/json'',
      get_json = parsed, data_json_loads = parsed\<rparr>"

text \<open>The bodies \<^verbatim>\<open>{}\<close>, \<^verbatim>\<open>{"text": ""}\<close>, \<^verbatim>\<open>{"text": 5}\<close>,
  \<^verbatim>\<open>{"text": "great"}\<close> and one that is not JSON.\<close>

definition req_no_text :: "real request" where
  "req_no_text = json_request (Inr (PDict []))"

definition req_empty_text :: "real request" where
  "req_empty_text = json_request (Inr (PDict [(''text'', PStr [])]))"

definition req_number :: "real request" where
  "req_number = json_request (Inr (PDict [(''text'', PInt 5)]))"

definition req_great :: "real request" where
  "req_great = json_request (Inr (PDict [(''text'', PStr ''great'')]))"

definition req_not_json :: "real request" where
  "req_not_json = json_request (Inl (OtherError ''400 Bad Request''))"

text \<open>The first construction gives one engine, every later one another.\<close>

definition ctor_two :: "real ctor" where
  "ctor_two n = (if n = 0 then Inr stub_engine else Inr broken_engine)"

text \<open>The stand-in engine with the softmax of the spec.\<close>

definition softmax_engine :: "real TransformerModel" where
  "softmax_engine = stub_engine\<lparr>F_softmax := softmax\<rparr>"



text \<open>The body \<^verbatim>\<open>{"text": null}\<close>.\<close>

definition req_null :: "real request" where
  "req_null = json_request (Inr (PDict [(''text'', PNone)]))"

section \<open>How the handlers treat the state and the request\<close>

lemma load_model_ready:
  "model s = Some m \<Longrightarrow> load_model ctor s = (Inr m, s)"
  by (simp add: load_model_def)

lemma load_model_failed:
  "model s = None \<Longrightarrow> ctor (constructions s) = Inl e \<Longrightarrow>
   load_model ctor s = (Inl e, s\<lparr>constructions := Suc (constructions s)\<rparr>)"
  by (simp add: load_model_def)

lemma load_model_loaded:
  "model s = None \<Longrightarrow> ctor (constructions s) = Inr m \<Longrightarrow>
   load_model ctor s = (Inr m, \<lparr>model = Some m, constructions = Suc (constructions s)\<rparr>)"
  by (cases s) (simp add: load_model_def)

lemma process_ready:
  "model s = Some m \<Longrightarrow>
   process_inference_request ctor s req = (validate_and_predict m req, s)"
  by (simp add: process_inference_request_def)

lemma process_load_failed:
  "model s = None \<Longrightarrow> ctor (constructions s) = Inl e \<Longrightarrow>
   process_inference_request ctor s req =
     ((Jsonify [(''error'', PStr (''Failed to load model: '' @ str e))], 500),
      s\<lparr>constructions := Suc (constructions s)\<rparr>)"
  by (simp add: process_inference_request_def load_model_def)

lemma process_loaded:
  "model s = None \<Longrightarrow> ctor (constructions s) = Inr m \<Longrightarrow>
   process_inference_request ctor s req =
     (validate_and_predict m req, \<lparr>model = Some m, constructions = Suc (constructions s)\<rparr>)"
  by (cases s) (simp add: process_inference_request_def load_model_def)

lemma serve_keeps_model:
  "model s = Some m \<Longrightarrow> serve ctor s c = s"
  by (cases c) (simp_all add: predict_route_def process_ready health_check_def load_model_ready)

lemma serve_all_keeps_model:
  "model s = Some m \<Longrightarrow> foldl (serve ctor) s cs = s"
  by (induction cs) (simp_all add: serve_keeps_model)

lemma vp_not_json:
  "\<not> is_json req \<Longrightarrow> content_type req \<noteq> Some ''application/json'' \<Longrightarrow>
   validate_and_predict m req = (Jsonify [(''error'', PStr ''Request must be JSON'')], 400)"
  by (simp add: validate_and_predict_def)

lemma vp_json:
  "is_json req \<or> content_type req = Some ''application/json'' \<Longrightarrow>
   validate_and_predict m req =
     (case try_block m req of
        Inl e \<Rightarrow> (Jsonify [(''error'', PStr (''Error during prediction: '' @ str e))], 500)
      | Inr resp \<Rightarrow> resp)"
  by (auto simp add: validate_and_predict_def)

lemma slice_then_len:
  "py_slice50 text = Inr v \<Longrightarrow> \<exists>n. py_len text = Inr n"
  by (cases "text") simp_all

lemma try_block_parse:
  "parse_body req = Inl e \<Longrightarrow> try_block m req = Inl e"
  by (simp add: try_block_def)

lemma try_block_get:
  "parse_body req = Inr data \<Longrightarrow> py_get data ''text'' = Inl e \<Longrightarrow> try_block m req = Inl e"
  by (simp add: try_block_def)

lemma try_block_slice:
  "parse_body req = Inr data \<Longrightarrow> py_get data ''text'' = Inr text \<Longrightarrow>
   py_slice50 text = Inl e \<Longrightarrow> try_block m req = Inl e"
  by (simp add: try_block_def)

lemma try_block_sliced:
  assumes "parse_body req = Inr data" and "py_get data ''text'' = Inr text"
    and "py_slice50 text = Inr v"
  shows "try_block m req =
     (if \<not> truthy text
      then Inr (Jsonify [(''error'', PStr ''Missing 'text' field in request'')], 400)
      else (case predict m text of
              Inl e \<Rightarrow> Inl e
            | Inr result \<Rightarrow> Inr (Jsonify [(''result'', result)], 200)))"
proof -
  obtain n where "py_len text = Inr n"
    using slice_then_len [OF assms(3)] by blast
  with assms show ?thesis
    by (simp add: try_block_def)
qed

lemma predict_scores:
  "tokenize self text = Inr inps \<Longrightarrow> self_model self inps = Inr (row # rows) \<Longrightarrow>
   F_softmax self row = s0 # s1 # rest \<Longrightarrow>
   predict self text = Inr (PDict [(''negative'', PFloat s0), (''positive'', PFloat s1)])"
  by (simp add: predict_def)

lemma try_block_status:
  "try_block m req = Inr (b, status) \<Longrightarrow> status = 200 \<or> status = 400"
  by (auto simp add: try_block_def split: sum.splits if_splits)

lemma vp_status:
  "snd (validate_and_predict m req) \<in> {200, 400, 500}"
  by (cases "try_block m req")
     (auto simp add: validate_and_predict_def dest: try_block_status)

lemma process_status:
  "snd (fst (process_inference_request ctor s req)) \<in> {200, 400, 500}"
proof (cases "model s")
  case (Some m)
  then show ?thesis using vp_status [of m req] by (simp add: process_ready)
next
  case None
  then show ?thesis
  proof (cases "ctor (constructions s)")
    case (Inl e)
    with None show ?thesis by (simp add: process_load_failed)
  next
    case (Inr m)
    with None show ?thesis using vp_status [of m req] by (simp add: process_loaded)
  qed
qed

lemma engines_differ:
  "stub_engine \<noteq> broken_engine"
proof
  assume "stub_engine = broken_engine"
  then have "self_model stub_engine \<lparr>input_ids = [], attention_mask = []\<rparr> =
      self_model broken_engine \<lparr>input_ids = [], attention_mask = []\<rparr>"
    by simp
  then show False
    by (simp add: stub_engine_def broken_engine_def)
qed

section \<open>Exceptions inside the handler\<close>

text \<open>
  Claim C4: an exception raised while the body is parsed, while the \<^verbatim>\<open>text\<close>
  field is read and validated, or by \<^verbatim>\<open>predict\<close>, is caught by the handler's
  \<^verbatim>\<open>except Exception\<close> clause and answered with status 500 and the body
  \<^verbatim>\<open>{"error": "Error during prediction: <message>"}\<close>, and the engine stays loaded
  for the next request. The handler returns a response in every case: each place that
  can raise lies inside one of its two \<^verbatim>\<open>try\<close> blocks.
\<close>

theorem exceptions_become_500:
  assumes ready: "model s = Some m \<or> (model s = None \<and> ctor (constructions s) = Inr m)"
    and typed: "is_json req \<or> content_type req = Some ''application/json''"
    and raised:
      "parse_body req = Inl e \<or>
       (\<exists>data. parse_body req = Inr data \<and>
          (py_get data ''text'' = Inl e \<or>
           (\<exists>text. py_get data ''text'' = Inr text \<and>
              (py_slice50 text = Inl e \<or>
               (\<exists>v. py_slice50 text = Inr v \<and> truthy text \<and> predict m text = Inl e)))))"
  shows "fst (process_inference_request ctor s req) =
           (Jsonify [(''error'', PStr (''Error during prediction: '' @ str e))], 500) \<and>
         model (snd (process_inference_request ctor s req)) = Some m"
proof -
  have "try_block m req = Inl e"
    using raised
    by (auto simp add: try_block_parse try_block_get try_block_slice try_block_sliced)
  then have "validate_and_predict m req =
      (Jsonify [(''error'', PStr (''Error during prediction: '' @ str e))], 500)"
    using typed by (simp add: vp_json)
  then show ?thesis
    using ready by (auto simp add: process_ready process_loaded)
qed

text \<open>
  A body that does not parse, and a forward pass that raises.
\<close>

theorem exceptions_become_500_witness:
  "fst (process_inference_request ctor_ok s_loaded req_not_json) =
     (Jsonify [(''error'', PStr ''Error during prediction: 400 Bad Request'')], 500) \<and>
   model (snd (process_inference_request ctor_ok s_loaded req_not_json)) = Some stub_engine \<and>
   fst (process_inference_request ctor_ok \<lparr>model = Some broken_engine, constructions = 1\<rparr> req_great) =
     (Jsonify [(''error'', PStr ''Error during prediction: forward pass failed'')], 500)"
proof -
  have ready: "model s_loaded = Some stub_engine \<or>
      (model s_loaded = None \<and> ctor_ok (constructions s_loaded) = Inr stub_engine)"
    by (simp add: s_loaded_def)
  have typed: "is_json req_not_json \<or> content_type req_not_json = Some ''application/json''"
    by (simp add: req_not_json_def json_request_def)
  have parsed: "parse_body req_not_json = Inl (OtherError ''400 Bad Request'')"
    by (simp add: parse_body_def req_not_json_def json_request_def)
  have first: "fst (process_inference_request ctor_ok s_loaded req_not_json) =
     (Jsonify [(''error'', PStr (''Error during prediction: '' @ str (OtherError ''400 Bad Request'')))], 500) \<and>
     model (snd (process_inference_request ctor_ok s_loaded req_not_json)) = Some stub_engine"
    using parsed
    by (intro exceptions_become_500
          [where ctor = ctor_ok and s = s_loaded and m = stub_engine, OF ready typed]) simp
  have ready': "model \<lparr>model = Some broken_engine, constructions = 1\<rparr> = Some broken_engine \<or>
      (model \<lparr>model = Some broken_engine, constructions = 1\<rparr> = None \<and>
       ctor_ok (constructions \<lparr>model = Some broken_engine, constructions = 1\<rparr>) = Inr broken_engine)"
    by simp
  have typed': "is_json req_great \<or> content_type req_great = Some ''application/json''"
    by (simp add: req_great_def json_request_def)
  have great: "parse_body req_great = Inr (PDict [(''text'', PStr ''great'')])"
    by (simp add: parse_body_def req_great_def json_request_def)
  have raised: "predict broken_engine (PStr ''great'') = Inl (OtherError ''forward pass failed'')"
    by (simp add: predict_def tokenize_def broken_engine_def stub_engine_def)
  have second: "fst (process_inference_request ctor_ok \<lparr>model = Some broken_engine, constructions = 1\<rparr> req_great) =
     (Jsonify [(''error'', PStr (''Error during prediction: '' @ str (OtherError ''forward pass failed'')))], 500) \<and>
     model (snd (process_inference_request ctor_ok \<lparr>model = Some broken_engine, constructions = 1\<rparr> req_great)) =
       Some broken_engine"
    using great raised
    by (intro exceptions_become_500
          [where ctor = ctor_ok and s = "\<lparr>model = Some broken_engine, constructions = 1\<rparr>"
             and m = broken_engine, OF ready' typed']) simp
  from first second show ?thesis by simp
qed

section \<open>The lifecycle of the model\<close>

text \<open>
  Claim C5 says that the global, once set, is never swapped. \<^verbatim>\<open>load_model\<close> can be
  called concurrently, and line 34 stores without testing again: of two callers that
  both tested the global while it was unset, the first sets it to the engine of its
  construction and the second then overwrites it with the engine of its own.
\<close>

theorem load_model_swap_counterexample:
  "model (shared (interleave ctor_two (cold_start 2) [0, 1, 0, 1, 0])) = Some stub_engine \<and>
   model (shared (interleave ctor_two (cold_start 2) [0, 1, 0, 1, 0, 1])) = Some broken_engine \<and>
   constructions (shared (interleave ctor_two (cold_start 2) [0, 1, 0, 1, 0, 1])) = 2 \<and>
   stub_engine \<noteq> broken_engine"
  using engines_differ
  by (simp add: interleave_def caller_step_def cold_start_def ctor_two_def numeral_2_eq_2)

text \<open>
  Claim C5, amended: for calls that run one after another (no call of
  \<^verbatim>\<open>load_model\<close> is interleaved with another), when the global \<^verbatim>\<open>model\<close> is
  set, \<^verbatim>\<open>load_model\<close> returns it and leaves the state as it is (nothing is
  constructed), and no sequence of calls served afterwards changes it. When it is unset
  and the construction fails, the error is returned to the caller and the global stays
  \<^verbatim>\<open>None\<close>; if the next construction succeeds, the next call of
  \<^verbatim>\<open>load_model\<close> returns the new engine and stores it.
\<close>

theorem load_model_lifecycle:
  "(model s = Some m \<longrightarrow>
      load_model ctor s = (Inr m, s) \<and> foldl (serve ctor) s calls = s) \<and>
   (model s = None \<and> ctor (constructions s) = Inl e \<longrightarrow>
      fst (load_model ctor s) = Inl e \<and>
      snd (load_model ctor s) = s\<lparr>constructions := Suc (constructions s)\<rparr> \<and>
      model (snd (load_model ctor s)) = None \<and>
      (ctor (Suc (constructions s)) = Inr m' \<longrightarrow>
         fst (load_model ctor (snd (load_model ctor s))) = Inr m' \<and>
         model (snd (load_model ctor (snd (load_model ctor s)))) = Some m'))"
proof (intro conjI impI)
  assume "model s = Some m"
  then show "load_model ctor s = (Inr m, s)" and "foldl (serve ctor) s calls = s"
    by (simp_all add: load_model_ready serve_all_keeps_model)
next
  assume failed: "model s = None \<and> ctor (constructions s) = Inl e"
  then have step: "load_model ctor s = (Inl e, s\<lparr>constructions := Suc (constructions s)\<rparr>)"
    by (simp add: load_model_failed)
  then show "fst (load_model ctor s) = Inl e"
    and "snd (load_model ctor s) = s\<lparr>constructions := Suc (constructions s)\<rparr>"
    by simp_all
  from step failed show "model (snd (load_model ctor s)) = None"
    by simp
  assume again: "ctor (Suc (constructions s)) = Inr m'"
  with failed have "load_model ctor (s\<lparr>constructions := Suc (constructions s)\<rparr>) =
      (Inr m', \<lparr>model = Some m', constructions = Suc (Suc (constructions s))\<rparr>)"
    by (simp add: load_model_loaded)
  with step show "fst (load_model ctor (snd (load_model ctor s))) = Inr m'"
    and "model (snd (load_model ctor (snd (load_model ctor s)))) = Some m'"
    by simp_all
qed

text \<open>
  The lifecycle on a process that is loaded, and on one whose first construction
  fails and whose second succeeds.
\<close>

theorem load_model_lifecycle_witness:
  "load_model ctor_retry s_loaded = (Inr stub_engine, s_loaded) \<and>
   foldl (serve ctor_retry) s_loaded [LoadModel, Invocations req_great, Ping, Invocations req_plain] = s_loaded \<and>
   fst (load_model ctor_retry s_unloaded) = Inl (OtherError ''hub unreachable'') \<and>
   model (snd (load_model ctor_retry s_unloaded)) = None \<and>
   fst (load_model ctor_retry (snd (load_model ctor_retry s_unloaded))) = Inr stub_engine \<and>
   model (snd (load_model ctor_retry (snd (load_model ctor_retry s_unloaded)))) = Some stub_engine"
proof -
  have loaded: "model s_loaded = Some stub_engine"
    by (simp add: s_loaded_def)
  have unloaded: "model s_unloaded = None \<and>
      ctor_retry (constructions s_unloaded) = Inl (OtherError ''hub unreachable'')"
    by (simp add: s_unloaded_def ctor_retry_def)
  have again: "ctor_retry (Suc (constructions s_unloaded)) = Inr stub_engine"
    by (simp add: ctor_retry_def)
  show ?thesis
    using load_model_lifecycle
            [of s_loaded stub_engine ctor_retry
                "[LoadModel, Invocations req_great, Ping, Invocations req_plain]"]
          load_model_lifecycle
            [of s_unloaded stub_engine ctor_retry "[]" "OtherError ''hub unreachable''" stub_engine]
          loaded unloaded again
    by blast
qed

section \<open>The liveness probe\<close>

text \<open>
  Claim C6: \<^verbatim>\<open>health_check\<close> answers status 200 with an empty body in every state
  of the process, loaded or not, and also in the state the import leaves behind when
  the load at startup has failed: the failure is caught there and the global stays
  \<^verbatim>\<open>None\<close>.
\<close>

theorem health_check_always_200:
  "health_check s = ((EmptyBody, 200), s) \<and>
   fst (health_check (startup ctor)) = (EmptyBody, 200) \<and>
   (ctor 0 = Inl e \<longrightarrow>
      startup ctor = \<lparr>model = None, constructions = 1\<rparr> \<and>
      fst (health_check (startup ctor)) = (EmptyBody, 200))"
  by (simp add: health_check_def startup_def load_model_def)

text \<open>
  The probe before the model is loaded, after it is loaded, and after a failed load
  at startup.
\<close>

theorem health_check_always_200_witness:
  "health_check s_unloaded = ((EmptyBody, 200), s_unloaded) \<and>
   health_check s_loaded = ((EmptyBody, 200), s_loaded) \<and>
   startup ctor_fail = \<lparr>model = None, constructions = 1\<rparr> \<and>
   fst (health_check (startup ctor_fail)) = (EmptyBody, 200)"
proof -
  have failed: "ctor_fail 0 = Inl (OtherError ''hub unreachable'')"
    by (simp add: ctor_fail_def)
  show ?thesis
    using health_check_always_200 [of s_unloaded ctor_fail "OtherError ''hub unreachable''"]
          health_check_always_200 [of s_loaded ctor_fail "OtherError ''hub unreachable''"]
          failed
    by blast
qed

section \<open>Requests that fail validation\<close>

text \<open>
  Claim C1 says that a request whose content type is not JSON, or whose parsed body
  has an absent or empty \<^verbatim>\<open>text\<close>, is answered with status 400. Two requests
  show otherwise. With the model unset and a failing load, a \<^verbatim>\<open>text/plain\<close>
  request is answered 500, because the handler loads the model before it looks at the
  request. With the model loaded, the body \<^verbatim>\<open>{}\<close> is answered 500:
  \<^verbatim>\<open>data.get('text')\<close> is \<^verbatim>\<open>None\<close>, and the log line slices it before
  \<^verbatim>\<open>not text\<close> is tested.
\<close>

theorem validation_400_counterexample:
  "\<not> is_json req_plain \<and> content_type req_plain \<noteq> Some ''application/json'' \<and>
   fst (process_inference_request ctor_fail s_unloaded req_plain) =
     (Jsonify [(''error'', PStr ''Failed to load model: hub unreachable'')], 500) \<and>
   is_json req_no_text \<and> parse_body req_no_text = Inr (PDict []) \<and>
   fst (process_inference_request ctor_ok s_loaded req_no_text) =
     (Jsonify [(''error'', PStr ''Error during prediction: 'NoneType' object is not subscriptable'')], 500)"
  by (simp add: req_plain_def req_no_text_def json_request_def s_unloaded_def s_loaded_def
      ctor_fail_def parse_body_def process_inference_request_def load_model_def
      validate_and_predict_def try_block_def)

text \<open>
  Claim C1, amended: when the engine is there (the model is loaded, or the load at the
  start of the handler succeeds), a request whose content type is not JSON is answered
  with status 400 and \<^verbatim>\<open>{"error": "Request must be JSON"}\<close>, and a JSON request whose
  body is an object with \<^verbatim>\<open>text\<close> the empty string is answered with status 400 and
  \<^verbatim>\<open>{"error": "Missing 'text' field in request"}\<close>. When the model is unset and the
  load fails, the answer is the 500 of the load failure, whatever the request.
\<close>

theorem validation_failures_are_400:
  "(model s = Some m \<or> (model s = None \<and> ctor (constructions s) = Inr m) \<longrightarrow>
      (\<not> is_json req \<and> content_type req \<noteq> Some ''application/json'' \<longrightarrow>
         fst (process_inference_request ctor s req) =
           (Jsonify [(''error'', PStr ''Request must be JSON'')], 400)) \<and>
      ((is_json req \<or> content_type req = Some ''application/json'') \<and>
       parse_body req = Inr (PDict kv) \<and> map_of kv ''text'' = Some (PStr []) \<longrightarrow>
         fst (process_inference_request ctor s req) =
           (Jsonify [(''error'', PStr ''Missing 'text' field in request'')], 400))) \<and>
   (model s = None \<and> ctor (constructions s) = Inl e \<longrightarrow>
      fst (process_inference_request ctor s req) =
        (Jsonify [(''error'', PStr (''Failed to load model: '' @ str e))], 500))"
proof (intro conjI impI)
  assume ready: "model s = Some m \<or> (model s = None \<and> ctor (constructions s) = Inr m)"
  then have handled: "fst (process_inference_request ctor s req) = validate_and_predict m req"
    by (auto simp add: process_ready process_loaded)
  {
    assume "\<not> is_json req \<and> content_type req \<noteq> Some ''application/json''"
    then show "fst (process_inference_request ctor s req) =
        (Jsonify [(''error'', PStr ''Request must be JSON'')], 400)"
      using handled by (simp add: vp_not_json)
  }
  {
    assume empty: "(is_json req \<or> content_type req = Some ''application/json'') \<and>
        parse_body req = Inr (PDict kv) \<and> map_of kv ''text'' = Some (PStr [])"
    then have got: "py_get (PDict kv) ''text'' = Inr (PStr [])"
      by simp
    have sliced: "py_slice50 (PStr []) = Inr (PStr [])"
      by simp
    have "try_block m req = Inr (Jsonify [(''error'', PStr ''Missing 'text' field in request'')], 400)"
      using empty try_block_sliced [OF _ got sliced, of req m] by simp
    then show "fst (process_inference_request ctor s req) =
        (Jsonify [(''error'', PStr ''Missing 'text' field in request'')], 400)"
      using handled empty by (simp add: vp_json)
  }
next
  assume "model s = None \<and> ctor (constructions s) = Inl e"
  then show "fst (process_inference_request ctor s req) =
      (Jsonify [(''error'', PStr (''Failed to load model: '' @ str e))], 500)"
    by (simp add: process_load_failed)
qed

text \<open>
  A \<^verbatim>\<open>text/plain\<close> request on a process that loads the model on demand, an
  empty \<^verbatim>\<open>text\<close> on a loaded process, and the same request when the load fails.
\<close>

theorem validation_failures_are_400_witness:
  "fst (process_inference_request ctor_ok s_unloaded req_plain) =
     (Jsonify [(''error'', PStr ''Request must be JSON'')], 400) \<and>
   fst (process_inference_request ctor_ok s_loaded req_empty_text) =
     (Jsonify [(''error'', PStr ''Missing 'text' field in request'')], 400) \<and>
   fst (process_inference_request ctor_fail s_unloaded req_empty_text) =
     (Jsonify [(''error'', PStr ''Failed to load model: hub unreachable'')], 500)"
proof -
  have loads: "model s_unloaded = None \<and> ctor_ok (constructions s_unloaded) = Inr stub_engine"
    by (simp add: s_unloaded_def ctor_ok_def)
  have plain: "\<not> is_json req_plain \<and> content_type req_plain \<noteq> Some ''application/json''"
    by (simp add: req_plain_def)
  have ready: "model s_loaded = Some stub_engine"
    by (simp add: s_loaded_def)
  have empty: "(is_json req_empty_text \<or> content_type req_empty_text = Some ''application/json'') \<and>
      parse_body req_empty_text = Inr (PDict [(''text'', PStr [])]) \<and>
      map_of [(''text'', PStr [])] ''text'' = Some (PStr [])"
    by (simp add: req_empty_text_def json_request_def parse_body_def)
  have fails: "model s_unloaded = None \<and>
      ctor_fail (constructions s_unloaded) = Inl (OtherError ''hub unreachable'')"
    by (simp add: s_unloaded_def ctor_fail_def)
  have "str (OtherError ''hub unreachable'') = ''hub unreachable''"
    by simp
  then show ?thesis
    using validation_failures_are_400
            [of s_unloaded stub_engine ctor_ok req_plain "[]" "OtherError ''x''"]
          validation_failures_are_400
            [of s_loaded stub_engine ctor_ok req_empty_text "[(''text'', PStr [])]" "OtherError ''x''"]
          validation_failures_are_400
            [of s_unloaded stub_engine ctor_fail req_empty_text "[]" "OtherError ''hub unreachable''"]
          loads plain ready empty fails
    by (simp del: str.simps map_of.simps)
qed

text \<open>
  Claim C10 says that a JSON request whose body does not parse, or whose \<^verbatim>\<open>text\<close>
  is not a string and cannot be subscripted, is answered 500 by the catch-all handler.
  When the model is unset and the load fails, such a request is answered by the handler
  of the load failure (lines 75-78), before its body is parsed.
\<close>

theorem catch_all_counterexample:
  "is_json req_not_json \<and>
   parse_body req_not_json = Inl (OtherError ''400 Bad Request'') \<and>
   fst (process_inference_request ctor_fail s_unloaded req_not_json) =
     (Jsonify [(''error'', PStr ''Failed to load model: hub unreachable'')], 500) \<and>
   fst (process_inference_request ctor_fail s_unloaded req_not_json) \<noteq>
     (Jsonify [(''error'', PStr ''Error during prediction: 400 Bad Request'')], 500)"
  by (simp add: req_not_json_def json_request_def parse_body_def s_unloaded_def ctor_fail_def
      process_inference_request_def load_model_def)

text \<open>
  Claim C10, amended: a request that passes the content-type test and whose body does
  not parse, or whose \<^verbatim>\<open>text\<close> is \<^verbatim>\<open>null\<close>, a boolean or a number, is answered
  with status 500 and an \<^verbatim>\<open>{"error": ...}\<close> body, never with 400. When the engine is
  there (the model is loaded, or the load at the start of the handler succeeds), the
  response is the one of the handler's \<^verbatim>\<open>except Exception\<close> clause,
  \<^verbatim>\<open>"Error during prediction: "\<close> followed by the message of the exception; when the
  model is unset and the load fails, it is the one of the load failure,
  \<^verbatim>\<open>"Failed to load model: "\<close> followed by its message.
\<close>

theorem unparseable_body_or_scalar_text_is_500:
  assumes typed: "is_json req \<or> content_type req = Some ''application/json''"
    and bad:
      "parse_body req = Inl e \<or>
       (\<exists>kv v. parse_body req = Inr (PDict kv) \<and> map_of kv ''text'' = Some v \<and>
          (v = PNone \<or> (\<exists>b. v = PBool b) \<or> (\<exists>i. v = PInt i) \<or> (\<exists>x. v = PFloat x)) \<and>
          e = TypeError (CHR 0x27 # type_name v @ ''' object is not subscriptable''))"
  shows "(model s = Some m \<or> (model s = None \<and> ctor (constructions s) = Inr m) \<longrightarrow>
            fst (process_inference_request ctor s req) =
              (Jsonify [(''error'', PStr (''Error during prediction: '' @ str e))], 500)) \<and>
         (model s = None \<and> ctor (constructions s) = Inl e' \<longrightarrow>
            fst (process_inference_request ctor s req) =
              (Jsonify [(''error'', PStr (''Failed to load model: '' @ str e'))], 500))"
proof -
  have raised: "try_block m' req = Inl e" for m' :: "'a TransformerModel"
    using bad
  proof
    assume "parse_body req = Inl e"
    then show ?thesis by (rule try_block_parse)
  next
    assume "\<exists>kv v. parse_body req = Inr (PDict kv) \<and> map_of kv ''text'' = Some v \<and>
          (v = PNone \<or> (\<exists>b. v = PBool b) \<or> (\<exists>i. v = PInt i) \<or> (\<exists>x. v = PFloat x)) \<and>
          e = TypeError (CHR 0x27 # type_name v @ ''' object is not subscriptable'')"
    then obtain kv v where parsed: "parse_body req = Inr (PDict kv)"
      and field: "map_of kv ''text'' = Some v"
      and kind: "v = PNone \<or> (\<exists>b. v = PBool b) \<or> (\<exists>i. v = PInt i) \<or> (\<exists>x. v = PFloat x)"
      and exc: "e = TypeError (CHR 0x27 # type_name v @ ''' object is not subscriptable'')"
      by blast
    have got: "py_get (PDict kv) ''text'' = Inr v"
      using field by simp
    have "py_slice50 v = Inl e"
      using kind exc by auto
    then show ?thesis
      by (rule try_block_slice [OF parsed got])
  qed
  have caught: "validate_and_predict m req =
      (Jsonify [(''error'', PStr (''Error during prediction: '' @ str e))], 500)"
    using raised [of m] typed by (simp add: vp_json)
  show ?thesis
  proof (intro conjI impI)
    assume "model s = Some m \<or> (model s = None \<and> ctor (constructions s) = Inr m)"
    then show "fst (process_inference_request ctor s req) =
        (Jsonify [(''error'', PStr (''Error during prediction: '' @ str e))], 500)"
      using caught by (auto simp add: process_ready process_loaded)
  next
    assume "model s = None \<and> ctor (constructions s) = Inl e'"
    then show "fst (process_inference_request ctor s req) =
        (Jsonify [(''error'', PStr (''Failed to load model: '' @ str e'))], 500)"
      by (simp add: process_load_failed)
  qed
qed

text \<open>
  A body that is not JSON on a process that loads the model on demand,
  \<^verbatim>\<open>{"text": 5}\<close> and \<^verbatim>\<open>{"text": null}\<close> on a loaded process, and a body that is
  not JSON when the load fails.
\<close>

theorem unparseable_body_or_scalar_text_is_500_witness:
  "fst (process_inference_request ctor_ok s_unloaded req_not_json) =
     (Jsonify [(''error'', PStr ''Error during prediction: 400 Bad Request'')], 500) \<and>
   fst (process_inference_request ctor_ok s_loaded req_number) =
     (Jsonify [(''error'', PStr ''Error during prediction: 'int' object is not subscriptable'')], 500) \<and>
   fst (process_inference_request ctor_ok s_loaded req_null) =
     (Jsonify [(''error'', PStr ''Error during prediction: 'NoneType' object is not subscriptable'')], 500) \<and>
   fst (process_inference_request ctor_fail s_unloaded req_not_json) =
     (Jsonify [(''error'', PStr ''Failed to load model: hub unreachable'')], 500)"
proof -
  have typed1: "is_json req_not_json \<or> content_type req_not_json = Some ''application/json''"
    by (simp add: req_not_json_def json_request_def)
  have bad1: "parse_body req_not_json = Inl (OtherError ''400 Bad Request'') \<or>
       (\<exists>kv v. parse_body req_not_json = Inr (PDict kv) \<and> map_of kv ''text'' = Some v \<and>
          (v = PNone \<or> (\<exists>b. v = PBool b) \<or> (\<exists>i. v = PInt i) \<or> (\<exists>x. v = PFloat x)) \<and>
          OtherError ''400 Bad Request'' =
            TypeError (CHR 0x27 # type_name v @ ''' object is not subscriptable''))"
    by (simp add: parse_body_def req_not_json_def json_request_def)
  have typed2: "is_json req_number \<or> content_type req_number = Some ''application/json''"
    by (simp add: req_number_def json_request_def)
  have bad2: "parse_body req_number = Inl (TypeError '''int' object is not subscriptable'') \<or>
       (\<exists>kv v. parse_body req_number = Inr (PDict kv) \<and> map_of kv ''text'' = Some v \<and>
          (v = PNone \<or> (\<exists>b. v = PBool b) \<or> (\<exists>i. v = PInt i) \<or> (\<exists>x. v = PFloat x)) \<and>
          TypeError '''int' object is not subscriptable'' =
            TypeError (CHR 0x27 # type_name v @ ''' object is not subscriptable''))"
    by (simp add: parse_body_def req_number_def json_request_def)
  have typed3: "is_json req_null \<or> content_type req_null = Some ''application/json''"
    by (simp add: req_null_def json_request_def)
  have bad3: "parse_body req_null = Inl (TypeError '''NoneType' object is not subscriptable'') \<or>
       (\<exists>kv v. parse_body req_null = Inr (PDict kv) \<and> map_of kv ''text'' = Some v \<and>
          (v = PNone \<or> (\<exists>b. v = PBool b) \<or> (\<exists>i. v = PInt i) \<or> (\<exists>x. v = PFloat x)) \<and>
          TypeError '''NoneType' object is not subscriptable'' =
            TypeError (CHR 0x27 # type_name v @ ''' object is not subscriptable''))"
    by (simp add: parse_body_def req_null_def json_request_def)
  have loads: "model s_unloaded = None \<and> ctor_ok (constructions s_unloaded) = Inr stub_engine"
    by (simp add: s_unloaded_def ctor_ok_def)
  have ready: "model s_loaded = Some stub_engine"
    by (simp add: s_loaded_def)
  have fails: "model s_unloaded = None \<and>
      ctor_fail (constructions s_unloaded) = Inl (OtherError ''hub unreachable'')"
    by (simp add: s_unloaded_def ctor_fail_def)
  have a: "fst (process_inference_request ctor_ok s_unloaded req_not_json) =
      (Jsonify [(''error'', PStr (''Error during prediction: '' @ str (OtherError ''400 Bad Request'')))], 500)"
    using unparseable_body_or_scalar_text_is_500
            [where ctor = ctor_ok and s = s_unloaded and m = stub_engine, OF typed1 bad1] loads
    by blast
  have b: "fst (process_inference_request ctor_ok s_loaded req_number) =
      (Jsonify [(''error'', PStr (''Error during prediction: '' @
         str (TypeError '''int' object is not subscriptable'')))], 500)"
    using unparseable_body_or_scalar_text_is_500
            [where ctor = ctor_ok and s = s_loaded and m = stub_engine, OF typed2 bad2] ready
    by blast
  have d: "fst (process_inference_request ctor_ok s_loaded req_null) =
      (Jsonify [(''error'', PStr (''Error during prediction: '' @
         str (TypeError '''NoneType' object is not subscriptable'')))], 500)"
    using unparseable_body_or_scalar_text_is_500
            [where ctor = ctor_ok and s = s_loaded and m = stub_engine, OF typed3 bad3] ready
    by blast
  have f: "fst (process_inference_request ctor_fail s_unloaded req_not_json) =
      (Jsonify [(''error'', PStr (''Failed to load model: '' @ str (OtherError ''hub unreachable'')))], 500)"
    using unparseable_body_or_scalar_text_is_500
            [where ctor = ctor_fail and s = s_unloaded and m = stub_engine
               and e' = "OtherError ''hub unreachable''", OF typed1 bad1] fails
    by blast
  from a b d f show ?thesis
    by simp
qed

section \<open>The order of the handler's steps\<close>

text \<open>
  Claim C2 says that the content type and the body are validated before the model is
  loaded, so that a request failing validation gets its 400 without a load attempt.
  On a process whose model is unset, a \<^verbatim>\<open>text/plain\<close> request does trigger a
  construction (the counter goes from 0 to 1), and when that construction fails the
  answer is 500, not 400.
\<close>

theorem validation_before_load_counterexample:
  "model s_unloaded = None \<and> constructions s_unloaded = 0 \<and>
   \<not> is_json req_plain \<and> content_type req_plain \<noteq> Some ''application/json'' \<and>
   process_inference_request ctor_ok s_unloaded req_plain =
     ((Jsonify [(''error'', PStr ''Request must be JSON'')], 400),
      \<lparr>model = Some stub_engine, constructions = 1\<rparr>) \<and>
   process_inference_request ctor_fail s_unloaded req_plain =
     ((Jsonify [(''error'', PStr ''Failed to load model: hub unreachable'')], 500),
      \<lparr>model = None, constructions = 1\<rparr>)"
  by (simp add: req_plain_def s_unloaded_def ctor_ok_def ctor_fail_def
      process_inference_request_def load_model_def validate_and_predict_def)

text \<open>
  Claim C2, amended: the handler first makes sure the model is loaded. If it is unset,
  one construction is attempted whatever the request; a failure is answered with status
  500 and the request is not looked at. Then come, in this order, the content-type test
  (400), the parsing of the body (500 when it raises), the test of \<^verbatim>\<open>text\<close>
  (400 when it is empty) and the inference. A request that fails validation causes no
  load attempt only when the model is already loaded.
\<close>

theorem load_check_precedes_validation:
  "(model s = None \<and> ctor (constructions s) = Inl e \<longrightarrow>
      process_inference_request ctor s req =
        ((Jsonify [(''error'', PStr (''Failed to load model: '' @ str e))], 500),
         s\<lparr>constructions := Suc (constructions s)\<rparr>)) \<and>
   (model s = None \<and> ctor (constructions s) = Inr m \<longrightarrow>
      process_inference_request ctor s req =
        (validate_and_predict m req, \<lparr>model = Some m, constructions = Suc (constructions s)\<rparr>)) \<and>
   (model s = Some m \<longrightarrow>
      process_inference_request ctor s req = (validate_and_predict m req, s)) \<and>
   (\<not> is_json req \<and> content_type req \<noteq> Some ''application/json'' \<longrightarrow>
      validate_and_predict m req = (Jsonify [(''error'', PStr ''Request must be JSON'')], 400)) \<and>
   ((is_json req \<or> content_type req = Some ''application/json'') \<and> parse_body req = Inl e \<longrightarrow>
      validate_and_predict m req =
        (Jsonify [(''error'', PStr (''Error during prediction: '' @ str e))], 500)) \<and>
   ((is_json req \<or> content_type req = Some ''application/json'') \<and>
    parse_body req = Inr data \<and> py_get data ''text'' = Inr text \<and> py_slice50 text = Inr v \<longrightarrow>
      validate_and_predict m req =
        (if \<not> truthy text
         then (Jsonify [(''error'', PStr ''Missing 'text' field in request'')], 400)
         else (case predict m text of
                 Inl e' \<Rightarrow> (Jsonify [(''error'', PStr (''Error during prediction: '' @ str e'))], 500)
               | Inr result \<Rightarrow> (Jsonify [(''result'', result)], 200))))"
proof (intro conjI impI)
  assume "model s = None \<and> ctor (constructions s) = Inl e"
  then show "process_inference_request ctor s req =
      ((Jsonify [(''error'', PStr (''Failed to load model: '' @ str e))], 500),
       s\<lparr>constructions := Suc (constructions s)\<rparr>)"
    by (simp add: process_load_failed)
next
  assume "model s = None \<and> ctor (constructions s) = Inr m"
  then show "process_inference_request ctor s req =
      (validate_and_predict m req, \<lparr>model = Some m, constructions = Suc (constructions s)\<rparr>)"
    by (simp add: process_loaded)
next
  assume "model s = Some m"
  then show "process_inference_request ctor s req = (validate_and_predict m req, s)"
    by (rule process_ready)
next
  assume "\<not> is_json req \<and> content_type req \<noteq> Some ''application/json''"
  then show "validate_and_predict m req = (Jsonify [(''error'', PStr ''Request must be JSON'')], 400)"
    by (simp add: vp_not_json)
next
  assume "(is_json req \<or> content_type req = Some ''application/json'') \<and> parse_body req = Inl e"
  then show "validate_and_predict m req =
      (Jsonify [(''error'', PStr (''Error during prediction: '' @ str e))], 500)"
    by (simp add: vp_json try_block_parse)
next
  assume a: "(is_json req \<or> content_type req = Some ''application/json'') \<and>
      parse_body req = Inr data \<and> py_get data ''text'' = Inr text \<and> py_slice50 text = Inr v"
  then have "try_block m req =
     (if \<not> truthy text
      then Inr (Jsonify [(''error'', PStr ''Missing 'text' field in request'')], 400)
      else (case predict m text of
              Inl e \<Rightarrow> Inl e
            | Inr result \<Rightarrow> Inr (Jsonify [(''result'', result)], 200)))"
    using try_block_sliced [of req data "text" v m] by simp
  with a show "validate_and_predict m req =
      (if \<not> truthy text
       then (Jsonify [(''error'', PStr ''Missing 'text' field in request'')], 400)
       else (case predict m text of
               Inl e' \<Rightarrow> (Jsonify [(''error'', PStr (''Error during prediction: '' @ str e'))], 500)
             | Inr result \<Rightarrow> (Jsonify [(''result'', result)], 200)))"
    by (simp add: vp_json split: sum.splits)
qed

text \<open>
  Each step on concrete requests: a failed load, a load on demand followed by the
  content-type test, a loaded process, a body that does not parse, an empty
  \<^verbatim>\<open>text\<close> and a successful inference.
\<close>

theorem load_check_precedes_validation_witness:
  "process_inference_request ctor_fail s_unloaded req_great =
     ((Jsonify [(''error'', PStr ''Failed to load model: hub unreachable'')], 500),
      \<lparr>model = None, constructions = 1\<rparr>) \<and>
   process_inference_request ctor_ok s_unloaded req_plain =
     ((Jsonify [(''error'', PStr ''Request must be JSON'')], 400),
      \<lparr>model = Some stub_engine, constructions = 1\<rparr>) \<and>
   process_inference_request ctor_ok s_loaded req_plain =
     ((Jsonify [(''error'', PStr ''Request must be JSON'')], 400), s_loaded) \<and>
   validate_and_predict stub_engine req_not_json =
     (Jsonify [(''error'', PStr ''Error during prediction: 400 Bad Request'')], 500) \<and>
   validate_and_predict stub_engine req_empty_text =
     (Jsonify [(''error'', PStr ''Missing 'text' field in request'')], 400) \<and>
   validate_and_predict stub_engine req_great =
     (Jsonify [(''result'', PDict [(''negative'', PFloat (1 / 2)), (''positive'', PFloat (1 / 2))])], 200)"
proof -
  have fails: "model s_unloaded = None \<and>
      ctor_fail (constructions s_unloaded) = Inl (OtherError ''hub unreachable'')"
    by (simp add: s_unloaded_def ctor_fail_def)
  have loads: "model s_unloaded = None \<and> ctor_ok (constructions s_unloaded) = Inr stub_engine"
    by (simp add: s_unloaded_def ctor_ok_def)
  have ready: "model s_loaded = Some stub_engine"
    by (simp add: s_loaded_def)
  have plain: "\<not> is_json req_plain \<and> content_type req_plain \<noteq> Some ''application/json''"
    by (simp add: req_plain_def)
  have unparsed: "(is_json req_not_json \<or> content_type req_not_json = Some ''application/json'') \<and>
      parse_body req_not_json = Inl (OtherError ''400 Bad Request'')"
    by (simp add: req_not_json_def json_request_def parse_body_def)
  have empty: "(is_json req_empty_text \<or> content_type req_empty_text = Some ''application/json'') \<and>
      parse_body req_empty_text = Inr (PDict [(''text'', PStr [])]) \<and>
      py_get (PDict [(''text'', PStr [])]) ''text'' = Inr (PStr []) \<and>
      py_slice50 (PStr []) = Inr (PStr [])"
    by (simp add: req_empty_text_def json_request_def parse_body_def)
  have great: "(is_json req_great \<or> content_type req_great = Some ''application/json'') \<and>
      parse_body req_great = Inr (PDict [(''text'', PStr ''great'')]) \<and>
      py_get (PDict [(''text'', PStr ''great'')]) ''text'' = Inr (PStr ''great'') \<and>
      py_slice50 (PStr ''great'') = Inr (PStr ''great'')"
    by (simp add: req_great_def json_request_def parse_body_def)
  have scored: "predict stub_engine (PStr ''great'') =
      Inr (PDict [(''negative'', PFloat (1 / 2)), (''positive'', PFloat (1 / 2))])"
    by (simp add: predict_def tokenize_def stub_engine_def)
  have failed: "process_inference_request ctor_fail s_unloaded req_great =
      ((Jsonify [(''error'', PStr ''Failed to load model: hub unreachable'')], 500),
       \<lparr>model = None, constructions = 1\<rparr>)"
    using load_check_precedes_validation
            [of s_unloaded ctor_fail "OtherError ''hub unreachable''" req_great stub_engine] fails
    by (simp add: s_unloaded_def)
  have rejected: "validate_and_predict stub_engine req_plain =
      (Jsonify [(''error'', PStr ''Request must be JSON'')], 400)"
    using load_check_precedes_validation [of s_loaded ctor_ok _ req_plain stub_engine] plain
    by blast
  have loaded: "process_inference_request ctor_ok s_unloaded req_plain =
      (validate_and_predict stub_engine req_plain, \<lparr>model = Some stub_engine, constructions = 1\<rparr>)"
    using load_check_precedes_validation [of s_unloaded ctor_ok _ req_plain stub_engine] loads
    by (simp add: s_unloaded_def)
  have kept: "process_inference_request ctor_ok s_loaded req_plain =
      (validate_and_predict stub_engine req_plain, s_loaded)"
    using load_check_precedes_validation [of s_loaded ctor_ok _ req_plain stub_engine] ready
    by blast
  have caught: "validate_and_predict stub_engine req_not_json =
      (Jsonify [(''error'', PStr (''Error during prediction: '' @ str (OtherError ''400 Bad Request'')))], 500)"
    using load_check_precedes_validation
            [of s_loaded ctor_ok "OtherError ''400 Bad Request''" req_not_json stub_engine] unparsed
    by blast
  have missing: "validate_and_predict stub_engine req_empty_text =
      (Jsonify [(''error'', PStr ''Missing 'text' field in request'')], 400)"
    using load_check_precedes_validation
            [of s_loaded ctor_ok _ req_empty_text stub_engine
                "PDict [(''text'', PStr [])]" "PStr []" "PStr []"] empty
    by simp
  have answered: "validate_and_predict stub_engine req_great =
      (Jsonify [(''result'', PDict [(''negative'', PFloat (1 / 2)), (''positive'', PFloat (1 / 2))])], 200)"
    using load_check_precedes_validation
            [of s_loaded ctor_ok _ req_great stub_engine
                "PDict [(''text'', PStr ''great'')]" "PStr ''great''" "PStr ''great''"] great scored
    by simp
  from failed rejected loaded kept caught missing answered show ?thesis
    by simp
qed

section \<open>Interleavings of the loader\<close>

lemma filter_update_same:
  "P (xs ! i) = P y \<Longrightarrow> i < length xs \<Longrightarrow> length (filter P (xs[i := y])) = length (filter P xs)"
  by (induction xs arbitrary: i) (auto simp add: nth_Cons' split: nat.splits if_splits)

lemma filter_update_gain:
  "\<not> P (xs ! i) \<Longrightarrow> P y \<Longrightarrow> i < length xs \<Longrightarrow>
   length (filter P (xs[i := y])) = Suc (length (filter P xs))"
  by (induction xs arbitrary: i) (auto simp add: nth_Cons' split: nat.splits if_splits)

lemma caller_step_length:
  "length (callers (caller_step ctor c i)) = length (callers c)"
  by (simp add: caller_step_def split: caller.splits option.splits sum.splits)

lemma interleave_snoc:
  "interleave ctor c (schedule @ [i]) = caller_step ctor (interleave ctor c schedule) i"
  by (simp add: interleave_def)

lemma interleave_append:
  "interleave ctor c (xs @ ys) = interleave ctor (interleave ctor c xs) ys"
  by (simp add: interleave_def)

lemma interleave_length:
  "length (callers (interleave ctor c schedule)) = length (callers c)"
  by (induction schedule rule: rev_induct) (simp_all add: interleave_snoc caller_step_length, simp add: interleave_def)

text \<open>Never more constructions than callers past their constructor call.\<close>

lemma caller_step_count:
  assumes "constructions (shared c) \<le> length (filter past_construct (callers c))"
  shows "constructions (shared (caller_step ctor c i)) \<le>
         length (filter past_construct (callers (caller_step ctor c i)))"
proof (cases "i < length (callers c)")
  case False
  with assms show ?thesis by (simp add: caller_step_def)
next
  case True
  show ?thesis
  proof (cases "callers c ! i")
    case At_test
    with True assms show ?thesis
      by (cases "model (shared c)")
         (simp_all add: caller_step_def filter_update_same filter_update_gain)
  next
    case At_construct
    with True assms show ?thesis
      by (cases "ctor (constructions (shared c))")
         (simp_all add: caller_step_def filter_update_gain)
  next
    case (At_store m)
    with True assms show ?thesis
      by (simp add: caller_step_def filter_update_same)
  next
    case At_return
    with True assms show ?thesis
      by (simp add: caller_step_def filter_update_same)
  next
    case (Returned r)
    with True assms show ?thesis by (simp add: caller_step_def)
  next
    case (Raised e)
    with True assms show ?thesis by (simp add: caller_step_def)
  qed
qed

lemma constructed_mono:
  "constructed ctor c m \<Longrightarrow> constructions (shared c) \<le> constructions (shared c') \<Longrightarrow>
   constructed ctor c' m"
  unfolding constructed_def by (meson less_le_trans)

lemma caller_step_constructions:
  "constructions (shared c) \<le> constructions (shared (caller_step ctor c i))"
  by (simp add: caller_step_def split: caller.splits option.splits sum.splits)

lemma sound_update:
  assumes inv: "sound ctor c"
    and grow: "constructions (shared c) \<le> constructions sh"
    and global: "\<And>m. model sh = Some m \<Longrightarrow> constructed ctor \<lparr>shared = sh, callers = ps\<rparr> m"
    and kept: "model (shared c) \<noteq> None \<Longrightarrow> model sh \<noteq> None"
    and places: "set ps \<subseteq> insert p (set (callers c))"
    and store: "\<And>m. p = At_store m \<Longrightarrow> constructed ctor \<lparr>shared = sh, callers = ps\<rparr> m"
    and return: "p = At_return \<Longrightarrow> model sh \<noteq> None"
    and returned: "\<And>r. p = Returned r \<Longrightarrow>
        \<exists>m. r = Some m \<and> constructed ctor \<lparr>shared = sh, callers = ps\<rparr> m"
  shows "sound ctor \<lparr>shared = sh, callers = ps\<rparr>"
proof -
  let ?c = "\<lparr>shared = sh, callers = ps\<rparr>"
  have mono: "constructed ctor ?c m" if "constructed ctor c m" for m
    using constructed_mono [OF that, of ?c] grow by simp
  have each: "(\<forall>m. q = At_store m \<longrightarrow> constructed ctor ?c m) \<and>
      (q = At_return \<longrightarrow> model sh \<noteq> None) \<and>
      (\<forall>r. q = Returned r \<longrightarrow> (\<exists>m. r = Some m \<and> constructed ctor ?c m))"
    if "q \<in> set ps" for q
  proof (cases "q = p")
    case True
    with store return returned show ?thesis by blast
  next
    case False
    with that places have old: "q \<in> set (callers c)" by blast
    with inv have a: "\<forall>m. q = At_store m \<longrightarrow> constructed ctor c m"
      and b: "q = At_return \<longrightarrow> model (shared c) \<noteq> None"
      and d: "\<forall>r. q = Returned r \<longrightarrow> (\<exists>m. r = Some m \<and> constructed ctor c m)"
      unfolding sound_def by blast+
    from a mono have "\<forall>m. q = At_store m \<longrightarrow> constructed ctor ?c m" by blast
    moreover from b kept have "q = At_return \<longrightarrow> model sh \<noteq> None" by blast
    moreover from d mono have "\<forall>r. q = Returned r \<longrightarrow> (\<exists>m. r = Some m \<and> constructed ctor ?c m)"
      by blast
    ultimately show ?thesis by blast
  qed
  show ?thesis
    unfolding sound_def using global each by simp
qed

lemma callers_update:
  "c\<lparr>callers := ps\<rparr> = \<lparr>shared = shared c, callers = ps\<rparr>"
  by (cases c) simp

lemma caller_step_sound:
  assumes inv: "sound ctor c"
  shows "sound ctor (caller_step ctor c i)"
proof (cases "i < length (callers c)")
  case False
  with inv show ?thesis by (simp add: caller_step_def)
next
  case True
  have places: "set ((callers c)[i := p]) \<subseteq> insert p (set (callers c))" for p
    by (rule set_update_subset_insert)
  from True have here: "callers c ! i \<in> set (callers c)"
    by simp
  have global: "constructed ctor c m" if "model (shared c) = Some m" for m
    using inv that unfolding sound_def by blast
  have same: "constructed ctor \<lparr>shared = shared c, callers = ps\<rparr> m" if "constructed ctor c m" for m ps
    using that by (simp add: constructed_def)
  have more: "constructed ctor
      \<lparr>shared = (shared c)\<lparr>constructions := Suc (constructions (shared c))\<rparr>, callers = ps\<rparr> m"
    if "constructed ctor c m" for m ps
    using constructed_mono [OF that] by simp
  have stored: "constructed ctor \<lparr>shared = (shared c)\<lparr>model := Some m'\<rparr>, callers = ps\<rparr> m"
    if "constructed ctor c m" for m m' ps
    using that by (simp add: constructed_def)
  show ?thesis
  proof (cases "callers c ! i")
    case At_test
    show ?thesis
    proof (cases "model (shared c)")
      case None
      have "sound ctor \<lparr>shared = shared c, callers = (callers c)[i := At_construct]\<rparr>"
        by (rule sound_update [OF inv _ _ _ places]) (simp_all add: global same)
      with At_test None True show ?thesis
        by (simp add: caller_step_def callers_update)
    next
      case (Some m)
      have "sound ctor \<lparr>shared = shared c, callers = (callers c)[i := At_return]\<rparr>"
        by (rule sound_update [OF inv _ _ _ places]) (simp_all add: global same Some)
      with At_test Some True show ?thesis
        by (simp add: caller_step_def callers_update)
    qed
  next
    case At_construct
    show ?thesis
    proof (cases "ctor (constructions (shared c))")
      case (Inl e)
      have "sound ctor \<lparr>shared = (shared c)\<lparr>constructions := Suc (constructions (shared c))\<rparr>,
          callers = (callers c)[i := Raised e]\<rparr>"
        by (rule sound_update [OF inv _ _ _ places]) (simp_all add: global more)
      with At_construct Inl True show ?thesis
        by (simp add: caller_step_def)
    next
      case (Inr m)
      have new: "constructed ctor
          \<lparr>shared = (shared c)\<lparr>constructions := Suc (constructions (shared c))\<rparr>, callers = ps\<rparr> m"
        for ps
        using Inr by (auto simp add: constructed_def)
      have "sound ctor \<lparr>shared = (shared c)\<lparr>constructions := Suc (constructions (shared c))\<rparr>,
          callers = (callers c)[i := At_store m]\<rparr>"
        by (rule sound_update [OF inv _ _ _ places]) (simp_all add: global more new)
      with At_construct Inr True show ?thesis
        by (simp add: caller_step_def)
    qed
  next
    case (At_store m)
    with here inv have held: "constructed ctor c m"
      unfolding sound_def by blast
    have "sound ctor \<lparr>shared = (shared c)\<lparr>model := Some m\<rparr>,
        callers = (callers c)[i := At_return]\<rparr>"
      by (rule sound_update [OF inv _ _ _ places]) (simp_all add: stored held)
    with At_store True show ?thesis
      by (simp add: caller_step_def)
  next
    case At_return
    with here inv obtain m where set: "model (shared c) = Some m"
      unfolding sound_def by fastforce
    then have held: "constructed ctor c m"
      by (rule global)
    have "sound ctor \<lparr>shared = shared c, callers = (callers c)[i := Returned (Some m)]\<rparr>"
      by (rule sound_update [OF inv _ _ _ places]) (simp_all add: global same held)
    with At_return set True show ?thesis
      by (simp add: caller_step_def callers_update)
  next
    case (Returned r)
    with True inv show ?thesis by (simp add: caller_step_def)
  next
    case (Raised e)
    with True inv show ?thesis by (simp add: caller_step_def)
  qed
qed

lemma cold_start_sound:
  "sound ctor (cold_start n)"
  by (simp add: sound_def cold_start_def)

lemma interleave_sound:
  "sound ctor c \<Longrightarrow> sound ctor (interleave ctor c schedule)"
  by (induction schedule rule: rev_induct)
     (simp_all add: interleave_snoc caller_step_sound, simp add: interleave_def)

lemma interleave_count:
  "constructions (shared c) \<le> length (filter past_construct (callers c)) \<Longrightarrow>
   constructions (shared (interleave ctor c schedule)) \<le>
     length (filter past_construct (callers (interleave ctor c schedule)))"
  by (induction schedule rule: rev_induct)
     (simp_all add: interleave_snoc caller_step_count, simp add: interleave_def)

text \<open>Once set, the global is never unset.\<close>

lemma caller_step_keeps_set:
  "model (shared c) \<noteq> None \<Longrightarrow> model (shared (caller_step ctor c i)) \<noteq> None"
  by (cases "callers c ! i"; cases "ctor (constructions (shared c))")
     (auto simp add: caller_step_def)

text \<open>
  While the global is unset no caller has stored, so every caller past its constructor
  call has made a construction, and none is at a \<^verbatim>\<open>return\<close>.
\<close>

lemma caller_step_unset:
  assumes inv: "model (shared c) = None \<longrightarrow>
      constructions (shared c) = length (filter past_construct (callers c)) \<and>
      At_return \<notin> set (callers c)"
    and unset: "model (shared (caller_step ctor c i)) = None"
  shows "constructions (shared (caller_step ctor c i)) =
           length (filter past_construct (callers (caller_step ctor c i))) \<and>
         At_return \<notin> set (callers (caller_step ctor c i))"
proof -
  from unset caller_step_keeps_set [of c ctor i] have none: "model (shared c) = None"
    by blast
  with inv have cnt: "constructions (shared c) = length (filter past_construct (callers c))"
    and nor: "At_return \<notin> set (callers c)"
    by blast+
  note upd = set_update_subset_insert [THEN subsetD]
  show ?thesis
  proof (cases "i < length (callers c)")
    case False
    with cnt nor show ?thesis by (simp add: caller_step_def)
  next
    case True
    then have here: "callers c ! i \<in> set (callers c)"
      by simp
    show ?thesis
    proof (cases "callers c ! i")
      case At_test
      with True none cnt nor show ?thesis
        by (auto simp add: caller_step_def filter_update_same dest!: upd)
    next
      case At_construct
      with True none cnt nor show ?thesis
        by (cases "ctor (constructions (shared c))")
           (auto simp add: caller_step_def filter_update_gain dest!: upd)
    next
      case (At_store m)
      with True unset show ?thesis
        by (simp add: caller_step_def)
    next
      case At_return
      with here nor show ?thesis by simp
    next
      case (Returned r)
      with True cnt nor show ?thesis by (simp add: caller_step_def)
    next
      case (Raised e)
      with True cnt nor show ?thesis by (simp add: caller_step_def)
    qed
  qed
qed

lemma interleave_unset:
  "model (shared (interleave ctor (cold_start n) schedule)) = None \<longrightarrow>
     constructions (shared (interleave ctor (cold_start n) schedule)) =
       length (filter past_construct (callers (interleave ctor (cold_start n) schedule))) \<and>
     At_return \<notin> set (callers (interleave ctor (cold_start n) schedule))"
proof (induction schedule rule: rev_induct)
  case Nil
  show ?case by (simp add: interleave_def cold_start_def)
next
  case (snoc i schedule)
  show ?case
    unfolding interleave_snoc
    using caller_step_unset [OF snoc, of ctor i] by blast
qed

text \<open>
  Once every caller has made its test, the constructions made are as many as the callers
  beyond their constructor call.
\<close>

lemma caller_step_tested:
  assumes "At_test \<notin> set (callers c)"
    and "constructions (shared c) = length (filter (\<lambda>p. p \<noteq> At_construct) (callers c))"
  shows "At_test \<notin> set (callers (caller_step ctor c i)) \<and>
         constructions (shared (caller_step ctor c i)) =
           length (filter (\<lambda>p. p \<noteq> At_construct) (callers (caller_step ctor c i)))"
proof (cases "i < length (callers c)")
  case False
  with assms show ?thesis by (simp add: caller_step_def)
next
  case True
  note upd = set_update_subset_insert [THEN subsetD]
  from True have here: "callers c ! i \<in> set (callers c)"
    by simp
  show ?thesis
  proof (cases "callers c ! i")
    case At_test
    with here assms show ?thesis by simp
  next
    case At_construct
    with True assms show ?thesis
      by (cases "ctor (constructions (shared c))")
         (auto simp add: caller_step_def filter_update_gain dest!: upd)
  next
    case (At_store m)
    with True assms show ?thesis
      by (auto simp add: caller_step_def filter_update_same dest!: upd)
  next
    case At_return
    with True assms show ?thesis
      by (auto simp add: caller_step_def filter_update_same dest!: upd)
  next
    case (Returned r)
    with True assms show ?thesis by (simp add: caller_step_def)
  next
    case (Raised e)
    with True assms show ?thesis by (simp add: caller_step_def)
  qed
qed

lemma interleave_tested:
  assumes "At_test \<notin> set (callers c)"
    and "constructions (shared c) = length (filter (\<lambda>p. p \<noteq> At_construct) (callers c))"
  shows "At_test \<notin> set (callers (interleave ctor c schedule)) \<and>
         constructions (shared (interleave ctor c schedule)) =
           length (filter (\<lambda>p. p \<noteq> At_construct) (callers (interleave ctor c schedule)))"
proof (induction schedule rule: rev_induct)
  case Nil
  from assms show ?case by (simp add: interleave_def)
next
  case (snoc i schedule)
  then show ?case
    unfolding interleave_snoc using caller_step_tested by blast
qed

lemma all_tested_all_construct:
  assumes reach: "c = interleave ctor (cold_start n) before"
    and unset: "model (shared c) = None"
    and tested: "At_test \<notin> set (callers c)"
  shows "constructions (shared (interleave ctor c after)) =
           length (filter (\<lambda>p. p \<noteq> At_construct) (callers (interleave ctor c after)))"
    and "(\<forall>p \<in> set (callers (interleave ctor c after)). finished p) \<Longrightarrow>
         constructions (shared (interleave ctor c after)) = n"
proof -
  from interleave_unset [of ctor n before] reach unset
  have cnt: "constructions (shared c) = length (filter past_construct (callers c))"
    and nor: "At_return \<notin> set (callers c)"
    by auto
  have "filter past_construct (callers c) = filter (\<lambda>p. p \<noteq> At_construct) (callers c)"
  proof (rule filter_cong [OF refl])
    fix p assume "p \<in> set (callers c)"
    with tested show "past_construct p = (p \<noteq> At_construct)"
      by (cases p) auto
  qed
  with cnt have start: "constructions (shared c) =
      length (filter (\<lambda>p. p \<noteq> At_construct) (callers c))"
    by simp
  from interleave_tested [OF tested start, of ctor after]
  show eq: "constructions (shared (interleave ctor c after)) =
      length (filter (\<lambda>p. p \<noteq> At_construct) (callers (interleave ctor c after)))"
    by blast
  assume fin: "\<forall>p \<in> set (callers (interleave ctor c after)). finished p"
  then have "filter (\<lambda>p. p \<noteq> At_construct) (callers (interleave ctor c after)) =
      callers (interleave ctor c after)"
    by (auto simp add: filter_id_conv)
  with eq have "constructions (shared (interleave ctor c after)) =
      length (callers (interleave ctor c after))"
    by simp
  also have "\<dots> = n"
    using reach by (simp add: interleave_length cold_start_def)
  finally show "constructions (shared (interleave ctor c after)) = n" .
qed

text \<open>Every caller tests, then every caller runs its constructor.\<close>

lemma all_test_first:
  "k \<le> n \<Longrightarrow>
   interleave ctor (cold_start n) [0..<k] =
     \<lparr>shared = \<lparr>model = None, constructions = 0\<rparr>,
      callers = replicate k At_construct @ replicate (n - k) At_test\<rparr>"
proof (induction k)
  case 0
  show ?case by (simp add: interleave_def cold_start_def)
next
  case (Suc k)
  then obtain d where d: "n - k = Suc d"
    by (metis Suc_diff_Suc Suc_le_lessD)
  then have d': "n - Suc k = d"
    by simp
  from Suc have prev: "interleave ctor (cold_start n) [0..<k] =
      \<lparr>shared = \<lparr>model = None, constructions = 0\<rparr>,
       callers = replicate k At_construct @ replicate (n - k) At_test\<rparr>"
    by simp
  show ?case
    using Suc.prems
    by (simp add: interleave_snoc prev caller_step_def d d' nth_append list_update_append
        replicate_append_same)
qed

lemma all_construct_next:
  "k \<le> n \<Longrightarrow>
   interleave ctor
     \<lparr>shared = \<lparr>model = None, constructions = 0\<rparr>, callers = replicate n At_construct\<rparr> [0..<k] =
     \<lparr>shared = \<lparr>model = None, constructions = k\<rparr>,
      callers = map (\<lambda>j. case ctor j of Inl e \<Rightarrow> Raised e | Inr m \<Rightarrow> At_store m) [0..<k] @
                replicate (n - k) At_construct\<rparr>"
proof (induction k)
  case 0
  show ?case by (simp add: interleave_def)
next
  case (Suc k)
  then obtain d where d: "n - k = Suc d"
    by (metis Suc_diff_Suc Suc_le_lessD)
  then have d': "n - Suc k = d"
    by simp
  from Suc have prev: "interleave ctor
     \<lparr>shared = \<lparr>model = None, constructions = 0\<rparr>, callers = replicate n At_construct\<rparr> [0..<k] =
     \<lparr>shared = \<lparr>model = None, constructions = k\<rparr>,
      callers = map (\<lambda>j. case ctor j of Inl e \<Rightarrow> Raised e | Inr m \<Rightarrow> At_store m) [0..<k] @
                replicate (n - k) At_construct\<rparr>"
    by simp
  show ?case
    using Suc.prems
    by (cases "ctor k")
       (simp_all add: interleave_snoc prev caller_step_def d d' nth_append list_update_append)
qed

lemma all_callers_construct:
  "interleave ctor (cold_start n) [0..<n] =
     \<lparr>shared = \<lparr>model = None, constructions = 0\<rparr>, callers = replicate n At_construct\<rparr> \<and>
   interleave ctor (cold_start n) ([0..<n] @ [0..<n]) =
     \<lparr>shared = \<lparr>model = None, constructions = n\<rparr>,
      callers = map (\<lambda>j. case ctor j of Inl e \<Rightarrow> Raised e | Inr m \<Rightarrow> At_store m) [0..<n]\<rparr>"
  using all_test_first [of n n ctor] all_construct_next [of n n ctor]
  by (simp add: interleave_append)

text \<open>A caller that is not interrupted.\<close>

lemma solo_caller:
  assumes "i < length (callers c)" and "callers c ! i = At_test"
  shows "shared (interleave ctor c [i, i, i, i]) = snd (load_model ctor (shared c)) \<and>
         callers (interleave ctor c [i, i, i, i]) ! i =
           (case fst (load_model ctor (shared c)) of
              Inr m \<Rightarrow> Returned (Some m)
            | Inl e \<Rightarrow> Raised e)"
  using assms
  by (cases "model (shared c)"; cases "ctor (constructions (shared c))")
     (simp_all add: interleave_def caller_step_def load_model_def)

lemma fast_path:
  assumes "i < length (callers c)" and "callers c ! i = At_test" and "model (shared c) = Some m"
  shows "interleave ctor c [i, i] = c\<lparr>callers := (callers c)[i := Returned (Some m)]\<rparr>"
  using assms by (simp add: interleave_def caller_step_def)

text \<open>Two callers whose outcomes differ.\<close>

lemma one_raises_one_returns:
  "ctor 0 = Inl e \<Longrightarrow> ctor 1 = Inr m \<Longrightarrow>
   interleave ctor (cold_start 2) [0, 1, 0, 1, 1, 1] =
     \<lparr>shared = \<lparr>model = Some m, constructions = 2\<rparr>,
      callers = [Raised e, Returned (Some m)]\<rparr>"
  by (simp add: interleave_def caller_step_def cold_start_def numeral_2_eq_2)

lemma each_returns_its_own:
  "ctor 0 = Inr m0 \<Longrightarrow> ctor 1 = Inr m1 \<Longrightarrow>
   interleave ctor (cold_start 2) [0, 1, 0, 1, 0, 0, 1, 1] =
     \<lparr>shared = \<lparr>model = Some m1, constructions = 2\<rparr>,
      callers = [Returned (Some m0), Returned (Some m1)]\<rparr>"
  by (simp add: interleave_def caller_step_def cold_start_def numeral_2_eq_2)

text \<open>A caller suspended before line 36 returns the engine another caller has stored since.\<close>

lemma returns_the_engine_stored_last:
  "ctor 0 = Inr m0 \<Longrightarrow> ctor 1 = Inr m1 \<Longrightarrow>
   interleave ctor (cold_start 2) [0, 1, 0, 1, 0, 1, 0, 1] =
     \<lparr>shared = \<lparr>model = Some m1, constructions = 2\<rparr>,
      callers = [Returned (Some m1), Returned (Some m1)]\<rparr>"
  by (simp add: interleave_def caller_step_def cold_start_def numeral_2_eq_2)

text \<open>
  Claim C9 says that concurrent callers of \<^verbatim>\<open>load_model\<close> are serialized, so
  that one load attempt proceeds at a time and all callers end with the same outcome.
  The source has no lock. With two callers that both test the global before either
  stores an engine, both are at the constructor call at the same time and two
  constructions are made. When the first construction fails and the second succeeds,
  one caller raises and the other returns an engine; when both succeed, the two callers
  can return different engines.
\<close>

theorem load_model_serialized_counterexample:
  "callers (interleave ctor_retry (cold_start 2) [0, 1]) = [At_construct, At_construct] \<and>
   interleave ctor_retry (cold_start 2) [0, 1, 0, 1, 1, 1] =
     \<lparr>shared = \<lparr>model = Some stub_engine, constructions = 2\<rparr>,
      callers = [Raised (OtherError ''hub unreachable''), Returned (Some stub_engine)]\<rparr> \<and>
   interleave ctor_two (cold_start 2) [0, 1, 0, 1, 0, 0, 1, 1] =
     \<lparr>shared = \<lparr>model = Some broken_engine, constructions = 2\<rparr>,
      callers = [Returned (Some stub_engine), Returned (Some broken_engine)]\<rparr> \<and>
   stub_engine \<noteq> broken_engine"
proof -
  have "callers (interleave ctor_retry (cold_start 2) [0, 1]) = [At_construct, At_construct]"
    by (simp add: interleave_def caller_step_def cold_start_def numeral_2_eq_2)
  moreover have "interleave ctor_retry (cold_start 2) [0, 1, 0, 1, 1, 1] =
     \<lparr>shared = \<lparr>model = Some stub_engine, constructions = 2\<rparr>,
      callers = [Raised (OtherError ''hub unreachable''), Returned (Some stub_engine)]\<rparr>"
    by (rule one_raises_one_returns) (simp_all add: ctor_retry_def)
  moreover have "interleave ctor_two (cold_start 2) [0, 1, 0, 1, 0, 0, 1, 1] =
     \<lparr>shared = \<lparr>model = Some broken_engine, constructions = 2\<rparr>,
      callers = [Returned (Some stub_engine), Returned (Some broken_engine)]\<rparr>"
    by (rule each_returns_its_own) (simp_all add: ctor_two_def)
  ultimately show ?thesis
    using engines_differ by blast
qed

text \<open>
  Claim C9, amended: \<^verbatim>\<open>load_model\<close> is not serialized. For every number \<open>n\<close> of
  callers of a cold start there is an interleaving (every caller makes its test, then
  every caller runs its constructor) in which all \<open>n\<close> are at the constructor call
  at the same time and \<open>n\<close> constructions are made while the global is still unset.
  In every interleaving in which all callers have made their test while the global is
  still unset, however they continue, the callers beyond their constructor call have
  each made a construction, \<open>n\<close> once all have finished. In every interleaving there
  are never more constructions than callers; the global and every value a caller returns
  is an engine whose construction has returned, so no caller sees a partially
  constructed engine; a caller that finds the global set and is not interrupted returns
  it without constructing; and a caller that is not interrupted does what the
  sequential \<^verbatim>\<open>load_model\<close> does. The callers need not end with the same outcome:
  of two, one can raise while the other returns an engine, and each can return the
  engine of its own construction.
\<close>

theorem load_model_not_serialized:
  assumes reach: "c = interleave ctor (cold_start n) schedule"
  shows "(interleave ctor (cold_start n) [0..<n] =
            \<lparr>shared = \<lparr>model = None, constructions = 0\<rparr>, callers = replicate n At_construct\<rparr> \<and>
          interleave ctor (cold_start n) ([0..<n] @ [0..<n]) =
            \<lparr>shared = \<lparr>model = None, constructions = n\<rparr>,
             callers = map (\<lambda>j. case ctor j of Inl e \<Rightarrow> Raised e | Inr m \<Rightarrow> At_store m) [0..<n]\<rparr>) \<and>
         (model (shared c) = None \<and> At_test \<notin> set (callers c) \<longrightarrow>
            constructions (shared (interleave ctor c after)) =
              length (filter (\<lambda>p. p \<noteq> At_construct) (callers (interleave ctor c after))) \<and>
            ((\<forall>p \<in> set (callers (interleave ctor c after)). finished p) \<longrightarrow>
               constructions (shared (interleave ctor c after)) = n)) \<and>
         constructions (shared c) \<le> n \<and>
         (model (shared c) = Some m \<longrightarrow> constructed ctor c m) \<and>
         (i < n \<and> callers c ! i = Returned r \<longrightarrow> (\<exists>m'. r = Some m' \<and> constructed ctor c m')) \<and>
         (i < n \<and> callers c ! i = At_test \<and> model (shared c) = Some m \<longrightarrow>
            interleave ctor c [i, i] = c\<lparr>callers := (callers c)[i := Returned (Some m)]\<rparr>) \<and>
         (i < n \<and> callers c ! i = At_test \<longrightarrow>
            shared (interleave ctor c [i, i, i, i]) = snd (load_model ctor (shared c)) \<and>
            callers (interleave ctor c [i, i, i, i]) ! i =
              (case fst (load_model ctor (shared c)) of
                 Inr m' \<Rightarrow> Returned (Some m')
               | Inl e' \<Rightarrow> Raised e')) \<and>
         (ctor 0 = Inl e \<and> ctor 1 = Inr m \<longrightarrow>
            interleave ctor (cold_start 2) [0, 1, 0, 1, 1, 1] =
              \<lparr>shared = \<lparr>model = Some m, constructions = 2\<rparr>,
               callers = [Raised e, Returned (Some m)]\<rparr>) \<and>
         (ctor 0 = Inr m0 \<and> ctor 1 = Inr m1 \<longrightarrow>
            interleave ctor (cold_start 2) [0, 1, 0, 1, 0, 0, 1, 1] =
              \<lparr>shared = \<lparr>model = Some m1, constructions = 2\<rparr>,
               callers = [Returned (Some m0), Returned (Some m1)]\<rparr>)"
proof -
  have len: "length (callers c) = n"
    using reach by (simp add: interleave_length cold_start_def)
  have inv: "sound ctor c"
    unfolding reach by (rule interleave_sound [OF cold_start_sound])
  have "constructions (shared c) \<le> length (filter past_construct (callers c))"
    unfolding reach by (rule interleave_count) (simp add: cold_start_def)
  also have "\<dots> \<le> n"
    using len length_filter_le [of past_construct "callers c"] by simp
  finally have bound: "constructions (shared c) \<le> n" .
  have global: "model (shared c) = Some m \<longrightarrow> constructed ctor c m"
    using inv unfolding sound_def by blast
  have returned: "i < n \<and> callers c ! i = Returned r \<longrightarrow>
      (\<exists>m'. r = Some m' \<and> constructed ctor c m')"
  proof
    assume a: "i < n \<and> callers c ! i = Returned r"
    then have "Returned r \<in> set (callers c)"
      using len by (metis nth_mem)
    with inv show "\<exists>m'. r = Some m' \<and> constructed ctor c m'"
      unfolding sound_def by blast
  qed
  have fast: "i < n \<and> callers c ! i = At_test \<and> model (shared c) = Some m \<longrightarrow>
      interleave ctor c [i, i] = c\<lparr>callers := (callers c)[i := Returned (Some m)]\<rparr>"
    using len fast_path [of i c m ctor] by blast
  have solo: "i < n \<and> callers c ! i = At_test \<longrightarrow>
      shared (interleave ctor c [i, i, i, i]) = snd (load_model ctor (shared c)) \<and>
      callers (interleave ctor c [i, i, i, i]) ! i =
        (case fst (load_model ctor (shared c)) of
           Inr m' \<Rightarrow> Returned (Some m')
         | Inl e' \<Rightarrow> Raised e')"
    using len solo_caller [of i c ctor] by blast
  have tested: "model (shared c) = None \<and> At_test \<notin> set (callers c) \<longrightarrow>
      constructions (shared (interleave ctor c after)) =
        length (filter (\<lambda>p. p \<noteq> At_construct) (callers (interleave ctor c after))) \<and>
      ((\<forall>p \<in> set (callers (interleave ctor c after)). finished p) \<longrightarrow>
         constructions (shared (interleave ctor c after)) = n)"
    using all_tested_all_construct [OF reach, of after] by blast
  have differ: "ctor 0 = Inl e \<and> ctor 1 = Inr m \<longrightarrow>
      interleave ctor (cold_start 2) [0, 1, 0, 1, 1, 1] =
        \<lparr>shared = \<lparr>model = Some m, constructions = 2\<rparr>,
         callers = [Raised e, Returned (Some m)]\<rparr>"
    using one_raises_one_returns [of ctor e m] by blast
  have own: "ctor 0 = Inr m0 \<and> ctor 1 = Inr m1 \<longrightarrow>
      interleave ctor (cold_start 2) [0, 1, 0, 1, 0, 0, 1, 1] =
        \<lparr>shared = \<lparr>model = Some m1, constructions = 2\<rparr>,
         callers = [Returned (Some m0), Returned (Some m1)]\<rparr>"
    using each_returns_its_own [of ctor m0 m1] by blast
  from all_callers_construct [of ctor n] tested bound global returned fast solo differ own
  show ?thesis
    by blast
qed

text \<open>
  Two callers that test before either stores and then finish; two callers that race
  up to the first store; a second caller that arrives after the first has returned; a
  caller that runs alone; and the two pairs of callers whose outcomes differ.
\<close>

theorem load_model_not_serialized_witness:
  "constructions
     (shared (interleave ctor_retry (interleave ctor_retry (cold_start 2) [0, 1]) [0, 1, 1, 1])) = 2 \<and>
   constructions (shared (interleave ctor_ok (cold_start 2) [0, 1, 0, 1, 0])) \<le> 2 \<and>
   constructed ctor_ok (interleave ctor_ok (cold_start 2) [0, 1, 0, 1, 0]) stub_engine \<and>
   constructed ctor_ok (interleave ctor_ok (cold_start 2) [0, 0, 0, 0]) stub_engine \<and>
   interleave ctor_ok (interleave ctor_ok (cold_start 2) [0, 0, 0, 0]) [1, 1] =
     \<lparr>shared = \<lparr>model = Some stub_engine, constructions = 1\<rparr>,
      callers = [Returned (Some stub_engine), Returned (Some stub_engine)]\<rparr> \<and>
   shared (interleave ctor_ok (interleave ctor_ok (cold_start 2) []) [0, 0, 0, 0]) =
     snd (load_model ctor_ok \<lparr>model = None, constructions = 0\<rparr>) \<and>
   interleave ctor_retry (cold_start 2) [0, 1, 0, 1, 1, 1] =
     \<lparr>shared = \<lparr>model = Some stub_engine, constructions = 2\<rparr>,
      callers = [Raised (OtherError ''hub unreachable''), Returned (Some stub_engine)]\<rparr> \<and>
   interleave ctor_two (cold_start 2) [0, 1, 0, 1, 0, 0, 1, 1] =
     \<lparr>shared = \<lparr>model = Some broken_engine, constructions = 2\<rparr>,
      callers = [Returned (Some stub_engine), Returned (Some broken_engine)]\<rparr>"
proof -
  define tested where "tested = interleave ctor_retry (cold_start 2) [0, 1]"
  define racing where "racing = interleave ctor_ok (cold_start 2) [0, 1, 0, 1, 0]"
  define alone where "alone = interleave ctor_ok (cold_start 2) [0, 0, 0, 0]"
  define cold where "cold = interleave ctor_ok (cold_start 2) []"
  define fine where "fine = interleave ctor_two (cold_start 2) []"
  have tested_eq: "tested =
      \<lparr>shared = \<lparr>model = None, constructions = 0\<rparr>, callers = [At_construct, At_construct]\<rparr>"
    unfolding tested_def
    by (simp add: interleave_def caller_step_def cold_start_def numeral_2_eq_2)
  have finished_eq: "interleave ctor_retry tested [0, 1, 1, 1] =
      \<lparr>shared = \<lparr>model = Some stub_engine, constructions = 2\<rparr>,
       callers = [Raised (OtherError ''hub unreachable''), Returned (Some stub_engine)]\<rparr>"
    unfolding tested_eq
    by (simp add: interleave_def caller_step_def ctor_retry_def)
  have racing_eq: "racing =
      \<lparr>shared = \<lparr>model = Some stub_engine, constructions = 2\<rparr>,
       callers = [At_return, At_store stub_engine]\<rparr>"
    unfolding racing_def
    by (simp add: interleave_def caller_step_def cold_start_def ctor_ok_def numeral_2_eq_2)
  have alone_eq: "alone =
      \<lparr>shared = \<lparr>model = Some stub_engine, constructions = 1\<rparr>,
       callers = [Returned (Some stub_engine), At_test]\<rparr>"
    unfolding alone_def
    by (simp add: interleave_def caller_step_def cold_start_def ctor_ok_def numeral_2_eq_2)
  have cold_eq: "cold =
      \<lparr>shared = \<lparr>model = None, constructions = 0\<rparr>, callers = [At_test, At_test]\<rparr>"
    unfolding cold_def
    by (simp add: interleave_def cold_start_def numeral_2_eq_2)
  have tested_hyp: "model (shared tested) = None \<and> At_test \<notin> set (callers tested)"
    by (simp add: tested_eq)
  have tested_fin: "\<forall>p \<in> set (callers (interleave ctor_retry tested [0, 1, 1, 1])). finished p"
    unfolding finished_eq by simp
  have a: "constructions (shared (interleave ctor_retry tested [0, 1, 1, 1])) = 2"
    using load_model_not_serialized [OF tested_def, where after = "[0, 1, 1, 1]"]
          tested_hyp tested_fin
    by blast
  have racing_hyp: "model (shared racing) = Some stub_engine"
    by (simp add: racing_eq)
  have b: "constructions (shared racing) \<le> 2 \<and> constructed ctor_ok racing stub_engine"
    using load_model_not_serialized [OF racing_def, where m = stub_engine] racing_hyp
    by blast
  have alone_hyp: "0 < (2::nat) \<and> callers alone ! 0 = Returned (Some stub_engine)"
    by (simp add: alone_eq)
  have d: "constructed ctor_ok alone stub_engine"
    using load_model_not_serialized [OF alone_def, where i = 0 and r = "Some stub_engine"]
          alone_hyp
    by auto
  have late_hyp: "1 < (2::nat) \<and> callers alone ! 1 = At_test \<and>
      model (shared alone) = Some stub_engine"
    by (simp add: alone_eq)
  have "interleave ctor_ok alone [1, 1] =
      alone\<lparr>callers := (callers alone)[1 := Returned (Some stub_engine)]\<rparr>"
    using load_model_not_serialized [OF alone_def, where i = 1 and m = stub_engine] late_hyp
    by blast
  also have "\<dots> =
      \<lparr>shared = \<lparr>model = Some stub_engine, constructions = 1\<rparr>,
       callers = [Returned (Some stub_engine), Returned (Some stub_engine)]\<rparr>"
    by (simp add: alone_eq)
  finally have f: "interleave ctor_ok alone [1, 1] =
      \<lparr>shared = \<lparr>model = Some stub_engine, constructions = 1\<rparr>,
       callers = [Returned (Some stub_engine), Returned (Some stub_engine)]\<rparr>" .
  have cold_hyp: "0 < (2::nat) \<and> callers cold ! 0 = At_test"
    by (simp add: cold_eq)
  have "shared (interleave ctor_ok cold [0, 0, 0, 0]) = snd (load_model ctor_ok (shared cold))"
    using load_model_not_serialized [OF cold_def, where i = 0] cold_hyp
    by blast
  then have g: "shared (interleave ctor_ok cold [0, 0, 0, 0]) =
      snd (load_model ctor_ok \<lparr>model = None, constructions = 0\<rparr>)"
    by (simp add: cold_eq)
  have retry_hyp: "ctor_retry 0 = Inl (OtherError ''hub unreachable'') \<and>
      ctor_retry 1 = Inr stub_engine"
    by (simp add: ctor_retry_def)
  have h: "interleave ctor_retry (cold_start 2) [0, 1, 0, 1, 1, 1] =
      \<lparr>shared = \<lparr>model = Some stub_engine, constructions = 2\<rparr>,
       callers = [Raised (OtherError ''hub unreachable''), Returned (Some stub_engine)]\<rparr>"
    using load_model_not_serialized
            [OF tested_def, where e = "OtherError ''hub unreachable''" and m = stub_engine]
          retry_hyp
    by blast
  have two_hyp: "ctor_two 0 = Inr stub_engine \<and> ctor_two 1 = Inr broken_engine"
    by (simp add: ctor_two_def)
  have k: "interleave ctor_two (cold_start 2) [0, 1, 0, 1, 0, 0, 1, 1] =
      \<lparr>shared = \<lparr>model = Some broken_engine, constructions = 2\<rparr>,
       callers = [Returned (Some stub_engine), Returned (Some broken_engine)]\<rparr>"
    using load_model_not_serialized
            [OF fine_def, where ?m0.0 = stub_engine and ?m1.0 = broken_engine]
          two_hyp
    by blast
  from a b d f g h k show ?thesis
    unfolding tested_def racing_def alone_def cold_def by blast
qed

section \<open>The scores that predict returns\<close>

lemma softmax_pair:
  "softmax [a, b] = [exp a / (exp a + exp b), exp b / (exp a + exp b)]"
  by (simp add: softmax_def)

lemma predict_keys:
  "predict self text = Inr r \<Longrightarrow>
   \<exists>s0 s1. r = PDict [(''negative'', PFloat s0), (''positive'', PFloat s1)]"
  by (auto simp add: predict_def split: sum.splits list.splits)

text \<open>
  Claim C3: with the softmax of the spec for \<^verbatim>\<open>torch.nn.functional.softmax\<close>, a
  text that the tokenizer accepts and for which the classifier gives the two logits
  \<open>l0\<close> and \<open>l1\<close> is answered by \<^verbatim>\<open>predict\<close> with the mapping whose keys are
  exactly \<^verbatim>\<open>"negative"\<close> and \<^verbatim>\<open>"positive"\<close>, with entry 0 of the softmax of the
  logits under \<^verbatim>\<open>"negative"\<close> and entry 1 under \<^verbatim>\<open>"positive"\<close>. Each value lies
  in [0,1] and the two sum to 1, hence to 1 within 1e-6. Whatever the engine, a result of
  \<^verbatim>\<open>predict\<close> has exactly these two keys, in this order. The scores are real numbers
  here; the rounding of floating point is not modelled.
\<close>

theorem predict_probabilities:
  assumes soft: "F_softmax self = softmax"
    and toks: "tokenize self (PStr text) = Inr inps"
    and logits: "self_model self inps = Inr ([l0, l1] # rows)"
  shows "predict self (PStr text) =
           Inr (PDict [(''negative'', PFloat (softmax [l0, l1] ! 0)),
                       (''positive'', PFloat (softmax [l0, l1] ! 1))]) \<and>
         0 \<le> softmax [l0, l1] ! 0 \<and> softmax [l0, l1] ! 0 \<le> 1 \<and>
         0 \<le> softmax [l0, l1] ! 1 \<and> softmax [l0, l1] ! 1 \<le> 1 \<and>
         softmax [l0, l1] ! 0 + softmax [l0, l1] ! 1 = 1 \<and>
         \<bar>softmax [l0, l1] ! 0 + softmax [l0, l1] ! 1 - 1\<bar> \<le> 1 / 10 ^ 6 \<and>
         (\<forall>t r. predict self t = Inr r \<longrightarrow>
            (\<exists>s0 s1. r = PDict [(''negative'', PFloat s0), (''positive'', PFloat s1)]))"
proof -
  have pos: "0 < exp l0 + exp l1"
    by (simp add: add_pos_pos)
  have p0: "softmax [l0, l1] ! 0 = exp l0 / (exp l0 + exp l1)"
    and p1: "softmax [l0, l1] ! 1 = exp l1 / (exp l0 + exp l1)"
    by (simp_all add: softmax_pair)
  have result: "predict self (PStr text) =
      Inr (PDict [(''negative'', PFloat (softmax [l0, l1] ! 0)),
                  (''positive'', PFloat (softmax [l0, l1] ! 1))])"
    using toks logits soft by (simp add: predict_def softmax_pair)
  have lo0: "0 \<le> softmax [l0, l1] ! 0" and lo1: "0 \<le> softmax [l0, l1] ! 1"
    unfolding p0 p1 using pos by simp_all
  have hi0: "softmax [l0, l1] ! 0 \<le> 1" and hi1: "softmax [l0, l1] ! 1 \<le> 1"
    unfolding p0 p1 using pos by (simp_all add: divide_le_eq)
  have total: "softmax [l0, l1] ! 0 + softmax [l0, l1] ! 1 = 1"
    unfolding p0 p1 using pos by (simp add: add_divide_distrib [symmetric])
  have close: "\<bar>softmax [l0, l1] ! 0 + softmax [l0, l1] ! 1 - 1\<bar> \<le> 1 / 10 ^ 6"
    unfolding total by simp
  have keys: "\<forall>t r. predict self t = Inr r \<longrightarrow>
      (\<exists>s0 s1. r = PDict [(''negative'', PFloat s0), (''positive'', PFloat s1)])"
    using predict_keys by blast
  from result lo0 hi0 lo1 hi1 total close keys show ?thesis
    by blast
qed

text \<open>The stand-in engine with the softmax of the spec scores every text one half each way.\<close>

theorem predict_probabilities_witness:
  "predict softmax_engine (PStr ''great'') =
     Inr (PDict [(''negative'', PFloat (1 / 2)), (''positive'', PFloat (1 / 2))]) \<and>
   softmax [0, 0] = [1 / 2, 1 / 2] \<and>
   softmax [0, 0] ! 0 + softmax [0, 0] ! 1 = 1"
proof -
  have soft: "F_softmax softmax_engine = softmax"
    by (simp add: softmax_engine_def)
  have toks: "tokenize softmax_engine (PStr ''great'') =
      Inr \<lparr>input_ids = [[101, 102]], attention_mask = [[1, 1]]\<rparr>"
    by (simp add: tokenize_def softmax_engine_def stub_engine_def)
  have logits: "self_model softmax_engine \<lparr>input_ids = [[101, 102]], attention_mask = [[1, 1]]\<rparr> =
      Inr ([0, 0] # [])"
    by (simp add: softmax_engine_def stub_engine_def)
  have half: "softmax [0, 0] = [1 / 2, 1 / 2]"
    by (simp add: softmax_pair)
  from predict_probabilities [OF soft toks logits] half show ?thesis
    by simp
qed

section \<open>The tokens that reach the classifier\<close>



end
